theory Spec2Isabelle
  imports Complex_Main "HOL-Library.Sublist" "HOL-Library.AList" "HOL-Library.Multiset"
begin

section \<open>FixMatch training script: shallow embedding of \<open>train.py\<close>\<close>

text \<open>
  The embedding follows \<open>src/train.py\<close>. Python floats are modelled by \<^typ>\<open>real\<close>
  (rounding, infinities and NaN are outside the model), Python ints by \<^typ>\<open>int\<close> or
  \<^typ>\<open>nat\<close>, dictionaries by association lists in insertion order, and every
  exception the script can raise on the paths that are modelled is a value of the type
  \<open>error\<close>.
\<close>

datatype error =
    KeyError string
  | RuntimeError "string list" "string list"
  | AttributeError
  | TypeError
  | IndexError
  | ZeroDivisionError
  | ValueError

text \<open>
  Sequencing of statements that may raise: the first exception ends the computation.
\<close>

definition and_then :: "error + 'a \<Rightarrow> ('a \<Rightarrow> error + 'b) \<Rightarrow> error + 'b" where
  "and_then r f = (case r of Inl e \<Rightarrow> Inl e | Inr x \<Rightarrow> f x)"

subsection \<open>Optimizer parameter groups (\<open>main\<close>, lines 232--241)\<close>

text \<open>
  \<open>nd in n\<close> on Python strings: \<open>nd\<close> occurs in \<open>n\<close> as a contiguous substring.
\<close>

fun str_in :: "string \<Rightarrow> string \<Rightarrow> bool" where
  "str_in nd [] = (nd = [])"
| "str_in nd (c # cs) = (prefix nd (c # cs) \<or> str_in nd cs)"

definition no_decay :: "string list" where
  "no_decay = [''bias'', ''bn'']"

text \<open>\<open>any(nd in n for nd in no_decay)\<close>\<close>

definition any_no_decay :: "string \<Rightarrow> bool" where
  "any_no_decay n = list_ex (\<lambda>nd. str_in nd n) no_decay"

record 'p param_group =
  params :: "'p list"
  weight_decay :: real

text \<open>
  \<open>grouped_parameters\<close>: the first group collects the parameters whose name contains
  none of the \<open>no_decay\<close> strings, with \<open>weight_decay = args.wdecay * 2\<close>; the second
  group collects the others, with \<open>weight_decay = 0.0\<close>. The argument \<open>nps\<close> is
  \<open>model.named_parameters()\<close>, a list of (name, parameter) pairs.
\<close>

definition grouped_parameters :: "real \<Rightarrow> (string \<times> 'p) list \<Rightarrow> 'p param_group list" where
  "grouped_parameters wdecay nps =
     [ \<lparr> params = map snd (filter (\<lambda>(n, p). \<not> any_no_decay n) nps),
         weight_decay = wdecay * 2 \<rparr>,
       \<lparr> params = map snd (filter (\<lambda>(n, p). any_no_decay n) nps),
         weight_decay = 0 \<rparr> ]"

text \<open>The names that the two comprehensions select, in the order of \<open>named_parameters\<close>.\<close>

definition group_names :: "(string \<times> 'p) list \<Rightarrow> string list \<times> string list" where
  "group_names nps =
     (map fst (filter (\<lambda>(n, p). \<not> any_no_decay n) nps),
      map fst (filter (\<lambda>(n, p). any_no_decay n) nps))"

subsection \<open>Best accuracy in the epoch loop (\<open>main\<close>, lines 322--323)\<close>

text \<open>
  One pass of the epoch loop as far as the best accuracy is concerned:
  \<open>is_best = test_acc > best_acc; best_acc = max(test_acc, best_acc)\<close>.
\<close>

definition epoch_best :: "real \<Rightarrow> real \<Rightarrow> bool \<times> real" where
  "epoch_best best_acc test_acc = (test_acc > best_acc, max test_acc best_acc)"

text \<open>
  The value of the global \<open>best_acc\<close> after the loop has processed the test accuracies
  \<open>accs\<close>, one per epoch, starting from \<open>best_acc\<close> (0 for a fresh run, the
  checkpoint's value on resume).
\<close>

fun best_acc_after :: "real \<Rightarrow> real list \<Rightarrow> real" where
  "best_acc_after best_acc [] = best_acc"
| "best_acc_after best_acc (test_acc # accs) =
     best_acc_after (snd (epoch_best best_acc test_acc)) accs"

subsection \<open>Learning-rate schedule (\<open>get_cosine_schedule_with_warmup\<close>, lines 49--61)\<close>

text \<open>
  \<open>_lr_lambda\<close>, the multiplier that \<open>LambdaLR\<close> applies to the base learning rate, with
  \<open>num_cycles\<close> at its default 7/16 (\<open>main\<close> passes no other value). \<open>main\<close> calls it
  with \<open>num_warmup_steps = args.warmup * len(unlabeled_trainloader)\<close>, a float, and
  \<open>num_training_steps = args.epochs * args.iteration\<close>, an int; \<open>current_step\<close> is the
  scheduler's step counter.
\<close>

definition lr_lambda :: "real \<Rightarrow> int \<Rightarrow> int \<Rightarrow> real" where
  "lr_lambda num_warmup_steps num_training_steps current_step =
     (if real_of_int current_step < num_warmup_steps
      then real_of_int current_step / max 1 num_warmup_steps
      else let no_progress = (real_of_int current_step - num_warmup_steps)
                              / max 1 (real_of_int num_training_steps - num_warmup_steps)
           in max 0 (cos (pi * (7 / 16) * no_progress)))"

subsection \<open>Modules and their state dictionaries\<close>

text \<open>
  A tensor is modelled by one real number: every tensor operation of the script that is
  modelled here is elementwise on tensors of one shape. A \<open>state_dict\<close> is an
  \<open>OrderedDict\<close> from names to tensors.
\<close>

type_synonym state_dict = "(string \<times> real) list"

text \<open>\<open>d[k]\<close> on a dictionary: the value, or \<open>KeyError\<close>.\<close>

definition dict_get :: "(string \<times> 'v) list \<Rightarrow> string \<Rightarrow> error + 'v" where
  "dict_get d k = (case map_of d k of None \<Rightarrow> Inl (KeyError k) | Some v \<Rightarrow> Inr v)"

text \<open>
  A model is a plain network or a replication wrapper
  (\<open>torch.nn.parallel.DistributedDataParallel\<close>) around a model. The wrapper holds the
  wrapped model in its attribute \<open>module\<close>, so \<open>hasattr(model, 'module')\<close> holds for it
  and every key of its \<open>state_dict()\<close> is the wrapped model's key behind the prefix
  \<open>module.\<close>; the networks that \<open>create_model\<close> builds have no such attribute.
\<close>

datatype torch_module = Module state_dict | DistributedDataParallel torch_module

fun state_dict :: "torch_module \<Rightarrow> state_dict" where
  "state_dict (Module sd) = sd"
| "state_dict (DistributedDataParallel m) = map (\<lambda>(k, v). (''module.'' @ k, v)) (state_dict m)"

fun has_module :: "torch_module \<Rightarrow> bool" where
  "has_module (Module sd) = False"
| "has_module (DistributedDataParallel m) = True"

text \<open>
  Writing new values into the tensors of a model, in the order of its \<open>state_dict()\<close>
  (the effect of \<open>copy_\<close> on each of them; the wrapper shares its tensors with the wrapped
  model).
\<close>

fun put_values :: "torch_module \<Rightarrow> real list \<Rightarrow> torch_module" where
  "put_values (Module sd) vs = Module (zip (map fst sd) vs)"
| "put_values (DistributedDataParallel m) vs = DistributedDataParallel (put_values m vs)"

text \<open>
  \<open>torch.nn.Module.load_state_dict(sd)\<close> with its default \<open>strict=True\<close>: a key of the
  module that \<open>sd\<close> lacks is a missing key, a key of \<open>sd\<close> that the module lacks is an
  unexpected key, and with any of either the call raises \<open>RuntimeError\<close> naming them;
  otherwise every tensor of the module takes the value \<open>sd\<close> has under its key.
\<close>

definition load_state_dict :: "torch_module \<Rightarrow> state_dict \<Rightarrow> error + torch_module" where
  "load_state_dict m sd =
     (let missing = filter (\<lambda>k. k \<notin> set (map fst sd)) (map fst (state_dict m));
          unexpected = filter (\<lambda>k. k \<notin> set (map fst (state_dict m))) (map fst sd)
      in if missing = [] \<and> unexpected = []
         then Inr (put_values m
                (map (\<lambda>(k, v). case map_of sd k of Some v' \<Rightarrow> v' | None \<Rightarrow> v) (state_dict m)))
         else Inl (RuntimeError missing unexpected))"

subsection \<open>The EMA shadow model (\<open>ModelEMA\<close>, lines 475--512)\<close>

record ModelEMA =
  ema :: torch_module
  decay :: real
  device :: string
  ema_has_module :: bool

text \<open>
  \<open>__init__\<close> without \<open>resume\<close>, as \<open>main\<close> calls it: the shadow is a deep copy of the
  model; \<open>eval()\<close>, \<open>to(device)\<close> and \<open>requires_grad_(False)\<close> leave the values as they are.
\<close>

definition ModelEMA_init :: "torch_module \<Rightarrow> real \<Rightarrow> string \<Rightarrow> ModelEMA" where
  "ModelEMA_init model d dev =
     \<lparr> ema = model, decay = d, device = dev, ema_has_module = has_module model \<rparr>"

text \<open>\<open>if needs_module: k = 'module.' + k\<close>\<close>

definition lookup_key :: "bool \<Rightarrow> string \<Rightarrow> string" where
  "lookup_key needs_module k = (if needs_module then ''module.'' @ k else k)"

text \<open>
  The loop of \<open>update\<close> over \<open>self.ema.state_dict().items()\<close>: the new value of each
  shadow tensor, or the \<open>KeyError\<close> of the first key that \<open>msd\<close> lacks. (The move to
  \<open>self.device\<close> changes no value.)
\<close>

fun update_items :: "bool \<Rightarrow> real \<Rightarrow> state_dict \<Rightarrow> state_dict \<Rightarrow> error + real list" where
  "update_items needs_module d msd [] = Inr []"
| "update_items needs_module d msd ((k, ema_v) # items) =
     (case dict_get msd (lookup_key needs_module k) of
        Inl e \<Rightarrow> Inl e
      | Inr model_v \<Rightarrow>
          (case update_items needs_module d msd items of
             Inl e \<Rightarrow> Inl e
           | Inr vs \<Rightarrow> Inr ((ema_v * d + (1 - d) * model_v) # vs)))"

definition ModelEMA_update :: "ModelEMA \<Rightarrow> torch_module \<Rightarrow> error + ModelEMA" where
  "ModelEMA_update self model =
     (let needs_module = (has_module model \<and> \<not> ema_has_module self);
          msd = state_dict model
      in case update_items needs_module (decay self) msd (state_dict (ema self)) of
           Inl e \<Rightarrow> Inl e
         | Inr vs \<Rightarrow> Inr (self\<lparr> ema := put_values (ema self) vs \<rparr>))"

text \<open>
  \<open>ema_model.update(model)\<close> called \<open>n\<close> times in a row with the same live model, as the
  training loop does when the live weights do not move.
\<close>

fun update_repeated :: "nat \<Rightarrow> ModelEMA \<Rightarrow> torch_module \<Rightarrow> error + ModelEMA" where
  "update_repeated 0 self model = Inr self"
| "update_repeated (Suc n) self model =
     (case ModelEMA_update self model of
        Inl e \<Rightarrow> Inl e
      | Inr self' \<Rightarrow> update_repeated n self' model)"

subsection \<open>Checkpoints (\<open>main\<close>, lines 261--272 and 322--337; \<open>_load_checkpoint\<close>)\<close>

text \<open>
  The values a checkpoint dictionary holds. The optimizer's and the scheduler's
  \<open>state_dict()\<close> are opaque values of the types \<open>'o\<close> and \<open>'s\<close>.
\<close>

datatype ('o, 's) ckpt_value =
    VInt int
  | VFloat real
  | VStateDict state_dict
  | VNone
  | VOptimizer 'o
  | VScheduler 's

type_synonym ('o, 's) checkpoint = "(string \<times> ('o, 's) ckpt_value) list"

text \<open>
  \<open>_load_checkpoint\<close>, applied to the dictionary that \<open>torch.load\<close> returned. The keys of
  the saved shadow state are renamed for a wrapped shadow, collected in a new
  \<open>OrderedDict\<close> and loaded (strictly). Without the key \<open>ema_state_dict\<close> nothing is
  loaded; a value that is no dictionary has no \<open>items()\<close>.
\<close>

definition rename_key :: "bool \<Rightarrow> string \<Rightarrow> string" where
  "rename_key has_mod k =
     (if has_mod
      then (if \<not> prefix ''module'' k then ''module.'' @ k else k)
      else k)"

definition new_state_dict :: "bool \<Rightarrow> state_dict \<Rightarrow> state_dict" where
  "new_state_dict has_mod items =
     foldl (\<lambda>d (k, v). AList.update (rename_key has_mod k) v d) [] items"

definition load_checkpoint :: "ModelEMA \<Rightarrow> ('o, 's) checkpoint \<Rightarrow> error + ModelEMA" where
  "load_checkpoint self checkpoint =
     (case map_of checkpoint ''ema_state_dict'' of
        None \<Rightarrow> Inr self
      | Some (VStateDict sd) \<Rightarrow>
          (case load_state_dict (ema self) (new_state_dict (ema_has_module self) sd) of
             Inl e \<Rightarrow> Inl e
           | Inr m \<Rightarrow> Inr (self\<lparr> ema := m \<rparr>))
      | Some _ \<Rightarrow> Inl AttributeError)"

text \<open>
  The state that \<open>main\<close> holds around the epoch loop. \<open>ema_model\<close> is \<open>None\<close> when
  \<open>args.use_ema\<close> is false.
\<close>

record ('o, 's) run_state =
  best_acc :: real
  start_epoch :: int
  model :: torch_module
  ema_model :: "ModelEMA option"
  optimizer :: 'o
  scheduler :: 's

text \<open>\<open>m.module if hasattr(m, "module") else m\<close>\<close>

fun module_or_self :: "torch_module \<Rightarrow> torch_module" where
  "module_or_self (DistributedDataParallel m) = m"
| "module_or_self (Module sd) = Module sd"

text \<open>
  The dictionary that \<open>main\<close> passes to \<open>save_checkpoint\<close> at the end of the epoch
  \<open>epoch\<close> (lines 329--337), after \<open>best_acc\<close> has been updated.
\<close>

definition checkpoint_record ::
  "int \<Rightarrow> real \<Rightarrow> ('o, 's) run_state \<Rightarrow> ('o, 's) checkpoint" where
  "checkpoint_record epoch test_acc st =
     [ (''epoch'', VInt (epoch + 1)),
       (''state_dict'', VStateDict (state_dict (module_or_self (model st)))),
       (''ema_state_dict'',
          (case ema_model st of
             Some em \<Rightarrow> VStateDict (state_dict (module_or_self (ema em)))
           | None \<Rightarrow> VNone)),
       (''acc'', VFloat test_acc),
       (''best_acc'', VFloat (best_acc st)),
       (''optimizer'', VOptimizer (optimizer st)),
       (''scheduler'', VScheduler (scheduler st)) ]"

text \<open>
  What each use of a loaded value requires of it: \<open>load_state_dict\<close> of a module, of the
  optimizer and of the scheduler need a state of their kind, the epoch is the start of a
  \<open>range\<close>, the best accuracy is compared with floats.
\<close>

definition as_state_dict :: "('o, 's) ckpt_value \<Rightarrow> error + state_dict" where
  "as_state_dict v = (case v of VStateDict sd \<Rightarrow> Inr sd | _ \<Rightarrow> Inl TypeError)"

definition as_optimizer :: "('o, 's) ckpt_value \<Rightarrow> error + 'o" where
  "as_optimizer v = (case v of VOptimizer x \<Rightarrow> Inr x | _ \<Rightarrow> Inl TypeError)"

definition as_scheduler :: "('o, 's) ckpt_value \<Rightarrow> error + 's" where
  "as_scheduler v = (case v of VScheduler x \<Rightarrow> Inr x | _ \<Rightarrow> Inl TypeError)"

definition as_int :: "('o, 's) ckpt_value \<Rightarrow> error + int" where
  "as_int v = (case v of VInt i \<Rightarrow> Inr i | _ \<Rightarrow> Inl TypeError)"

definition as_float :: "('o, 's) ckpt_value \<Rightarrow> error + real" where
  "as_float v =
     (case v of VFloat r \<Rightarrow> Inr r | VInt i \<Rightarrow> Inr (real_of_int i) | _ \<Rightarrow> Inl TypeError)"

text \<open>
  The resume block of \<open>main\<close> (lines 266--272), applied to the dictionary that
  \<open>torch.load(args.resume)\<close> returned, statement by statement. The last statement reads
  the key \<open>schduler\<close>. The best accuracy and the epoch are only bound here; a value of the
  wrong kind fails when the epoch loop first uses it.
\<close>

definition resume :: "('o, 's) run_state \<Rightarrow> ('o, 's) checkpoint \<Rightarrow> error + ('o, 's) run_state" where
  "resume st checkpoint =
     and_then (dict_get checkpoint ''best_acc'') (\<lambda>b.
     and_then (dict_get checkpoint ''epoch'') (\<lambda>ep.
     and_then (dict_get checkpoint ''state_dict'') (\<lambda>v1.
     and_then (as_state_dict v1) (\<lambda>sd.
     and_then (load_state_dict (model st) sd) (\<lambda>m.
     and_then (case ema_model st of None \<Rightarrow> Inl AttributeError | Some em \<Rightarrow> Inr em) (\<lambda>em.
     and_then (dict_get checkpoint ''ema_state_dict'') (\<lambda>v2.
     and_then (as_state_dict v2) (\<lambda>esd.
     and_then (load_state_dict (ema em) esd) (\<lambda>em'.
     and_then (dict_get checkpoint ''optimizer'') (\<lambda>v3.
     and_then (as_optimizer v3) (\<lambda>opt.
     and_then (dict_get checkpoint ''schduler'') (\<lambda>v4.
     and_then (as_scheduler v4) (\<lambda>sch.
     and_then (as_float b) (\<lambda>b'.
     and_then (as_int ep) (\<lambda>ep'.
       Inr (st\<lparr> best_acc := b', start_epoch := ep', model := m,
                ema_model := Some (em\<lparr> ema := em' \<rparr>), optimizer := opt,
                scheduler := sch \<rparr>))))))))))))))))"

subsection \<open>The losses of one training step (\<open>train\<close>, lines 367--387)\<close>

text \<open>
  A logits tensor is a list of rows, one row of class scores per example. The first
  exception among the results for the rows of a batch is the exception of the batch.
\<close>

fun collect :: "(error + 'a) list \<Rightarrow> error + 'a list" where
  "collect [] = Inr []"
| "collect (r # rs) = and_then r (\<lambda>x. and_then (collect rs) (\<lambda>xs. Inr (x # xs)))"

text \<open>\<open>torch.softmax(row, dim=-1)\<close> and \<open>log_softmax\<close>, which \<open>F.cross_entropy\<close> applies.\<close>

definition softmax :: "real list \<Rightarrow> real list" where
  "softmax xs = map (\<lambda>x. exp x / sum_list (map exp xs)) xs"

definition log_softmax :: "real list \<Rightarrow> real list" where
  "log_softmax xs = map (\<lambda>x. x - ln (sum_list (map exp xs))) xs"

text \<open>
  \<open>torch.max(row, dim=-1)\<close>: the maximal value of the row and the index of its first
  occurrence; a row without entries has no maximum. \<open>max_from m i j xs\<close> scans \<open>xs\<close>,
  whose first entry has the index \<open>j\<close>, with the maximum \<open>m\<close> found so far at index \<open>i\<close>.
\<close>

fun max_from :: "real \<Rightarrow> nat \<Rightarrow> nat \<Rightarrow> real list \<Rightarrow> real \<times> nat" where
  "max_from m i j [] = (m, i)"
| "max_from m i j (x # xs) = (if x > m then max_from x j (Suc j) xs else max_from m i (Suc j) xs)"

fun torch_max :: "real list \<Rightarrow> error + (real \<times> nat)" where
  "torch_max [] = Inl IndexError"
| "torch_max (x # xs) = Inr (max_from x 0 1 xs)"

text \<open>\<open>tensor.mean()\<close>; the batches of the loaders are never empty.\<close>

definition mean :: "real list \<Rightarrow> real" where
  "mean xs = sum_list xs / real (length xs)"

text \<open>
  \<open>F.cross_entropy(logits, targets, reduction='none')\<close>: for each example the negated
  log-softmax score of its target class. A target that is no class index and batches of
  different sizes are errors.
\<close>

definition cross_entropy_row :: "real list \<Rightarrow> nat \<Rightarrow> error + real" where
  "cross_entropy_row row t =
     (if t < length row then Inr (- (log_softmax row ! t)) else Inl IndexError)"

definition cross_entropy_none :: "real list list \<Rightarrow> nat list \<Rightarrow> error + real list" where
  "cross_entropy_none logits targets =
     (if length logits \<noteq> length targets then Inl ValueError
      else collect (map2 cross_entropy_row logits targets))"

text \<open>\<open>F.cross_entropy(logits, targets, reduction='mean')\<close>\<close>

definition cross_entropy_mean :: "real list list \<Rightarrow> nat list \<Rightarrow> error + real" where
  "cross_entropy_mean logits targets =
     and_then (cross_entropy_none logits targets) (\<lambda>ce. Inr (mean ce))"

text \<open>
  Lines 381--383: the softmax of the weak-view logits, its maximum and the index of the
  maximum per example, and \<open>mask = max_probs.ge(args.threshold).float()\<close>. The result is
  \<open>(targets_u, mask)\<close>.
\<close>

definition pseudo_labels :: "real \<Rightarrow> real list list \<Rightarrow> error + (nat list \<times> real list)" where
  "pseudo_labels threshold logits_u_w =
     (let pseudo_label = map softmax logits_u_w
      in and_then (collect (map torch_max pseudo_label)) (\<lambda>mt.
           let max_probs = map fst mt; targets_u = map snd mt;
               mask = map (\<lambda>p. if p \<ge> threshold then 1 else 0) max_probs
           in Inr (targets_u, mask)))"

text \<open>
  Lines 385--386: \<open>(F.cross_entropy(logits_u_s, targets_u, reduction='none') * mask).mean()\<close>.
  When \<open>cross_entropy\<close> has returned, its result and \<open>mask\<close> have one length.
\<close>

definition unsupervised_loss :: "real list list \<Rightarrow> nat list \<Rightarrow> real list \<Rightarrow> error + real" where
  "unsupervised_loss logits_u_s targets_u mask_u =
     and_then (cross_entropy_none logits_u_s targets_u) (\<lambda>ce. Inr (mean (map2 (*) ce mask_u)))"

text \<open>
  \<open>logits[batch_size:].chunk(2)\<close>, unpacked into two names: two chunks of
  \<open>ceil(m / 2)\<close> and the remaining rows; a single row gives a single chunk, which does
  not unpack.
\<close>

definition chunk2 :: "'a list \<Rightarrow> error + ('a list \<times> 'a list)" where
  "chunk2 xs =
     (let m = length xs; c = (m + 1) div 2
      in if m = 1 then Inl ValueError else Inr (take c xs, drop c xs))"

text \<open>
  The losses of one iteration of \<open>train\<close>: the forward pass \<open>forward\<close> of the model on
  the concatenated batch, the split of its logits, \<open>Lx\<close>, the pseudo-labels, \<open>Lu\<close> and
  \<open>loss = Lx + args.lambda_u * Lu\<close>. The result is \<open>(loss, Lx, Lu, mask)\<close>.
\<close>

definition train_losses ::
  "real \<Rightarrow> real \<Rightarrow> ('a list \<Rightarrow> real list list) \<Rightarrow> 'a list \<times> nat list \<Rightarrow> 'a list \<times> 'a list
     \<Rightarrow> error + (real \<times> real \<times> real \<times> real list)" where
  "train_losses threshold lambda_u forward data_x data_u =
     (let inputs_x = fst data_x; targets_x = snd data_x;
          inputs_u_w = fst data_u; inputs_u_s = snd data_u;
          batch_size = length inputs_x;
          logits = forward (inputs_x @ inputs_u_w @ inputs_u_s);
          logits_x = take batch_size logits
      in and_then (chunk2 (drop batch_size logits)) (\<lambda>(logits_u_w, logits_u_s).
         and_then (cross_entropy_mean logits_x targets_x) (\<lambda>Lx.
         and_then (pseudo_labels threshold logits_u_w) (\<lambda>(targets_u, mask).
         and_then (unsupervised_loss logits_u_s targets_u mask) (\<lambda>Lu.
           Inr (Lx + lambda_u * Lu, Lx, Lu, mask))))))"

subsection \<open>Iterations per epoch (\<open>main\<close>, lines 210--224 and 247; \<open>train\<close>, lines 361--367)\<close>

text \<open>
  \<open>int(x)\<close> on a float truncates toward zero;
  \<open>args.iteration = int(args.k_img / args.batch_size)\<close> with true division.
\<close>

definition py_int :: "real \<Rightarrow> int" where
  "py_int x = (if 0 \<le> x then \<lfloor>x\<rfloor> else \<lceil>x\<rceil>)"

definition iteration :: "int \<Rightarrow> int \<Rightarrow> error + int" where
  "iteration k_img batch_size =
     (if batch_size = 0 then Inl ZeroDivisionError
      else Inr (py_int (real_of_int k_img / real_of_int batch_size)))"

text \<open>
  The indices that \<open>torch.utils.data.DistributedSampler\<close> (with its defaults
  \<open>shuffle=True\<close>, \<open>drop_last=False\<close>) gives the process \<open>rank\<close> out of \<open>num_replicas\<close>:
  the shuffled indices \<open>indices\<close> of the dataset are padded with their own beginning to
  \<open>total_size = num_samples * num_replicas\<close>, where
  \<open>num_samples = ceil(len(dataset) / num_replicas)\<close>, and the process takes
  \<open>indices[rank:total_size:num_replicas]\<close>.
\<close>

definition slice_len :: "nat \<Rightarrow> nat \<Rightarrow> nat \<Rightarrow> nat" where
  "slice_len start stop step = (if stop \<le> start then 0 else (stop - start + step - 1) div step)"

definition distributed_indices :: "nat \<Rightarrow> nat \<Rightarrow> nat list \<Rightarrow> nat list" where
  "distributed_indices num_replicas rank indices =
     (let n = length indices;
          num_samples = (n + num_replicas - 1) div num_replicas;
          total_size = num_samples * num_replicas;
          padding_size = total_size - n;
          padded = indices @ take padding_size
                     (concat (replicate ((padding_size + n - 1) div n) indices))
      in map (\<lambda>j. padded ! (rank + j * num_replicas))
           [0..<slice_len rank total_size num_replicas])"

text \<open>
  \<open>train_sampler(dataset)\<close>: \<open>SequentialSampler\<close> when \<open>args.local_rank == -1\<close>, else
  \<open>DistributedSampler\<close>. \<open>randperm n\<close> stands for the shuffled indices of a dataset of
  \<open>n\<close> examples (\<open>torch.randperm\<close> with the sampler's fixed seed).
\<close>

definition train_sampler :: "int \<Rightarrow> nat \<Rightarrow> nat \<Rightarrow> (nat \<Rightarrow> nat list) \<Rightarrow> 'a list \<Rightarrow> nat list" where
  "train_sampler local_rank world_size rank randperm dataset =
     (if local_rank = - 1 then [0..<length dataset]
      else distributed_indices world_size rank (randperm (length dataset)))"

text \<open>
  The batches of a \<open>DataLoader\<close> with \<open>drop_last=True\<close>: full batches only. A
  \<open>batch_size\<close> that is not positive is rejected when the loader is built.
\<close>

function batches :: "nat \<Rightarrow> 'a list \<Rightarrow> 'a list list" where
  "batches b xs = (if b = 0 \<or> length xs < b then [] else take b xs # batches b (drop b xs))"
  by pat_completeness auto
termination
  by (relation "measure (\<lambda>(b, xs). length xs)") auto

declare batches.simps [simp del]

definition DataLoader :: "'a list \<Rightarrow> nat list \<Rightarrow> int \<Rightarrow> error + 'a list list" where
  "DataLoader dataset sampler batch_size =
     (if batch_size \<le> 0 then Inl ValueError
      else Inr (batches (nat batch_size) (map (\<lambda>i. dataset ! i) sampler)))"

text \<open>
  The iterations of the loop of \<open>train\<close>:
  \<open>for batch_idx, (data_x, data_u) in enumerate(zip(labeled_trainloader, unlabeled_trainloader))\<close>.
\<close>

definition train_loader :: "'a list \<Rightarrow> 'b list \<Rightarrow> (nat \<times> 'a \<times> 'b) list" where
  "train_loader labeled_trainloader unlabeled_trainloader =
     List.enumerate 0 (zip labeled_trainloader unlabeled_trainloader)"

text \<open>
  The number of iterations that one call of \<open>train\<close> executes with the loaders that
  \<open>main\<close> builds from the two training datasets.
\<close>

definition iterations_executed ::
  "int \<Rightarrow> nat \<Rightarrow> nat \<Rightarrow> (nat \<Rightarrow> nat list) \<Rightarrow> int \<Rightarrow> 'a list \<Rightarrow> 'b list \<Rightarrow> error + nat" where
  "iterations_executed local_rank world_size rank randperm batch_size labeled_dataset
       unlabeled_dataset =
     and_then (DataLoader labeled_dataset
                 (train_sampler local_rank world_size rank randperm labeled_dataset) batch_size)
       (\<lambda>labeled_trainloader.
     and_then (DataLoader unlabeled_dataset
                 (train_sampler local_rank world_size rank randperm unlabeled_dataset) batch_size)
       (\<lambda>unlabeled_trainloader.
         Inr (length (train_loader labeled_trainloader unlabeled_trainloader))))"

section \<open>Properties\<close>

subsection \<open>Substring test\<close>

lemma str_in_sublist: "str_in nd n \<longleftrightarrow> sublist nd n"
  by (induction n) (simp_all add: sublist_Cons_right)

subsection \<open>Parameter groups\<close>

lemma filter_split_mset:
  "mset (map f (filter P xs)) + mset (map f (filter (\<lambda>x. \<not> P x) xs)) = mset (map f xs)"
  by (induction xs) simp_all

lemma case_prod_not: "(\<lambda>(n, p). \<not> Q n) = (\<lambda>x. \<not> (case x of (n, p) \<Rightarrow> Q n))"
  by (simp add: fun_eq_iff split: prod.splits)

text \<open>
  Claim C7. The weight-decayed group and the zero-decay group partition the named
  parameters: as multisets, the parameters of the two groups together are the parameters
  of the model (each one exactly once per occurrence in \<open>named_parameters\<close>), the same
  holds for the names, no name is selected by both comprehensions, and the union of the
  two name sets is the set of all parameter names.
\<close>

theorem grouped_parameters_partition:
  "mset (params (grouped_parameters wdecay nps ! 0)) + mset (params (grouped_parameters wdecay nps ! 1))
     = mset (map snd nps)
   \<and> mset (fst (group_names nps)) + mset (snd (group_names nps)) = mset (map fst nps)
   \<and> set (fst (group_names nps)) \<inter> set (snd (group_names nps)) = {}
   \<and> set (fst (group_names nps)) \<union> set (snd (group_names nps)) = set (map fst nps)
   \<and> length (grouped_parameters wdecay nps) = 2"
proof -
  let ?P = "\<lambda>(n, p::'a). any_no_decay n"
  have a: "mset (map snd (filter (\<lambda>(n, p). \<not> any_no_decay n) nps)) + mset (map snd (filter ?P nps))
           = mset (map snd nps)"
    using filter_split_mset [of snd ?P nps] by (simp add: case_prod_not add.commute)
  have b: "mset (map fst (filter (\<lambda>(n, p). \<not> any_no_decay n) nps)) + mset (map fst (filter ?P nps))
           = mset (map fst nps)"
    using filter_split_mset [of fst ?P nps] by (simp add: case_prod_not add.commute)
  have c: "set (map fst (filter (\<lambda>(n, p). \<not> any_no_decay n) nps)) \<inter> set (map fst (filter ?P nps)) = {}"
    by auto
  have d: "set (map fst (filter (\<lambda>(n, p). \<not> any_no_decay n) nps)) \<union> set (map fst (filter ?P nps))
           = set (map fst nps)"
    by auto
  show ?thesis
    using a b c d by (simp add: grouped_parameters_def group_names_def)
qed

subsection \<open>Best accuracy\<close>

lemma best_acc_after_append:
  "best_acc_after b (xs @ ys) = best_acc_after (best_acc_after b xs) ys"
  by (induction xs arbitrary: b) simp_all

lemma best_acc_after_ge: "b \<le> best_acc_after b xs"
proof (induction xs arbitrary: b)
  case Nil
  show ?case by simp
next
  case (Cons x xs)
  have "b \<le> max x b" by simp
  also have "\<dots> \<le> best_acc_after (max x b) xs" by (rule Cons.IH)
  finally show ?case by (simp add: epoch_best_def)
qed

lemma best_acc_after_Max: "best_acc_after b xs = Max (insert b (set xs))"
proof (induction xs arbitrary: b)
  case Nil
  show ?case by simp
next
  case (Cons x xs)
  have "best_acc_after b (x # xs) = Max (insert (max x b) (set xs))"
    by (simp add: epoch_best_def Cons.IH)
  also have "\<dots> = Max (insert b (set (x # xs)))"
  proof (cases "set xs = {}")
    case True
    then show ?thesis by (simp add: max.commute)
  next
    case False
    then show ?thesis by (simp add: max.assoc max.left_commute max.commute insert_commute)
  qed
  finally show ?case .
qed

text \<open>
  Claim C8. Along the epoch loop the global \<open>best_acc\<close> is the maximum of its starting
  value (0 for a fresh run, the restored value on resume) and the test accuracies seen so
  far; it never decreases when more epochs are run; on a fresh run with non-negative
  accuracies it is the maximum accuracy seen; and for the accuracies 70, 65, 80, 75 it is
  80 after the third epoch and after the fourth.
\<close>

theorem best_acc_running_max:
  "best_acc_after b accs = Max (insert b (set accs))
   \<and> (i \<le> j \<longrightarrow> best_acc_after b (take i accs) \<le> best_acc_after b (take j accs))
   \<and> (accs \<noteq> [] \<and> (\<forall>a \<in> set accs. 0 \<le> a) \<longrightarrow> best_acc_after 0 accs = Max (set accs))
   \<and> best_acc_after 0 [70, 65, 80] = 80
   \<and> best_acc_after 0 [70, 65, 80, 75] = 80"
proof -
  have mono: "best_acc_after b (take i accs) \<le> best_acc_after b (take j accs)" if "i \<le> j"
  proof -
    have "take j accs = take i accs @ take (j - i) (drop i accs)"
      using that by (metis le_add_diff_inverse take_add)
    then show ?thesis
      by (simp add: best_acc_after_append best_acc_after_ge)
  qed
  have fresh: "best_acc_after 0 accs = Max (set accs)" if "accs \<noteq> []" "\<forall>a \<in> set accs. 0 \<le> a"
  proof -
    have ne: "set accs \<noteq> {}" using that(1) by simp
    have "0 \<le> Max (set accs)"
      using that ne by (simp add: Max_ge_iff) (meson ex_in_conv ne)
    then have "max 0 (Max (set accs)) = Max (set accs)" by simp
    then show ?thesis
      using ne by (simp add: best_acc_after_Max)
  qed
  have ex3: "best_acc_after 0 [70, 65, 80] = 80"
    by (simp add: epoch_best_def)
  have ex4: "best_acc_after 0 [70, 65, 80, 75] = 80"
    by (simp add: epoch_best_def)
  show ?thesis
    using mono fresh ex3 ex4 by (simp add: best_acc_after_Max)
qed

theorem best_acc_running_max_witness:
  "(1::nat) \<le> 3
   \<and> [70, 65, 80, 75] \<noteq> ([]::real list)
   \<and> best_acc_after 0 (take 1 [70, 65, 80, 75]) \<le> best_acc_after 0 (take 3 [70, 65, 80, 75])
   \<and> best_acc_after 0 (take 1 [70, 65, 80, 75]) = 70
   \<and> best_acc_after 0 [70, 65, 80, 75] = Max (set [70, 65, 80, 75])"
  using best_acc_running_max [of 0 "[70, 65, 80, 75]" 1 3]
  by (simp add: epoch_best_def)

subsection \<open>Weight-decay coefficients\<close>

text \<open>
  Claim C10 (as amended). The weight-decayed group is configured with the coefficient
  \<open>2 * wdecay\<close> and the bias/normalization group with 0; the coefficient of the first
  group differs from the configured \<open>wdecay\<close> whenever \<open>wdecay\<close> is not 0.
\<close>

theorem weight_decay_coefficients:
  "weight_decay (grouped_parameters wdecay nps ! 0) = 2 * wdecay
   \<and> weight_decay (grouped_parameters wdecay nps ! 1) = 0
   \<and> (wdecay \<noteq> 0 \<longrightarrow> weight_decay (grouped_parameters wdecay nps ! 0) \<noteq> wdecay)"
  by (simp add: grouped_parameters_def)

theorem weight_decay_coefficients_witness:
  "(5 / 10000 :: real) \<noteq> 0
   \<and> weight_decay (grouped_parameters (5 / 10000) [(''conv1.weight'', 0::nat), (''bn1.bias'', 1)] ! 0)
       = 1 / 1000
   \<and> weight_decay (grouped_parameters (5 / 10000) [(''conv1.weight'', 0::nat), (''bn1.bias'', 1)] ! 0)
       \<noteq> 5 / 10000"
  using weight_decay_coefficients [of "5 / 10000" "[(''conv1.weight'', 0::nat), (''bn1.bias'', 1)]"]
  by simp

text \<open>
  With \<open>--wdecay 0\<close> the coefficient of the weight-decayed group is \<open>0 * 2 = 0\<close>, the
  configured value itself.
\<close>

theorem weight_decay_zero_counterexample:
  "weight_decay (grouped_parameters 0 [(''conv1.weight'', 0::nat), (''bn1.bias'', 1)] ! 0) = 0"
  by (simp add: grouped_parameters_def)

subsection \<open>Learning-rate schedule\<close>

lemma lr_lambda_warmup:
  "real_of_int s < w \<Longrightarrow> lr_lambda w t s = real_of_int s / max 1 w"
  by (simp add: lr_lambda_def)

lemma lr_lambda_cosine:
  "\<not> real_of_int s < w \<Longrightarrow>
   lr_lambda w t s = max 0 (cos (pi * (7 / 16) * ((real_of_int s - w) / max 1 (real_of_int t - w))))"
  unfolding lr_lambda_def Let_def by (simp only: if_not_P if_False)

lemma lr_lambda_range: "0 \<le> s \<Longrightarrow> 0 \<le> lr_lambda w t s \<and> lr_lambda w t s \<le> 1"
proof (cases "real_of_int s < w")
  case True
  assume s: "0 \<le> s"
  have m: "0 < max 1 w" by simp
  have "real_of_int s \<le> max 1 w" using True by simp
  then have "real_of_int s / max 1 w \<le> 1" using m by (simp add: divide_le_eq)
  moreover have "0 \<le> real_of_int s / max 1 w" using s m by (simp add: divide_nonneg_pos)
  ultimately show ?thesis using True by (simp add: lr_lambda_warmup)
next
  case False
  then show ?thesis by (simp add: lr_lambda_cosine)
qed

lemma lr_lambda_warmup_mono:
  assumes "s1 \<le> s2" "real_of_int s2 < w"
  shows "lr_lambda w t s1 \<le> lr_lambda w t s2"
proof -
  have "real_of_int s1 < w" using assms by linarith
  moreover have "real_of_int s1 / max 1 w \<le> real_of_int s2 / max 1 w"
    using assms(1) by (simp add: divide_right_mono)
  ultimately show ?thesis using assms(2) by (simp add: lr_lambda_warmup)
qed

lemma lr_lambda_decay_mono:
  assumes "w \<le> real_of_int s1" "s1 \<le> s2" "s2 \<le> t"
  shows "lr_lambda w t s2 \<le> lr_lambda w t s1"
proof -
  define m where "m = max 1 (real_of_int t - w)"
  define p1 where "p1 = (real_of_int s1 - w) / m"
  define p2 where "p2 = (real_of_int s2 - w) / m"
  have m: "0 < m" "real_of_int t - w \<le> m" by (simp_all add: m_def)
  have p1: "0 \<le> p1" using assms(1) m by (simp add: p1_def)
  have p12: "p1 \<le> p2" using assms(2) m by (simp add: p1_def p2_def divide_right_mono)
  have "real_of_int s2 - w \<le> m" using assms(3) m(2) by linarith
  then have p2: "p2 \<le> 1" using m(1) by (simp add: p2_def divide_le_eq)
  have a1: "0 \<le> pi * (7 / 16) * p1" using p1 by simp
  have a12: "pi * (7 / 16) * p1 \<le> pi * (7 / 16) * p2"
    using p12 by (simp add: mult_left_mono)
  have "pi * (7 / 16) * p2 \<le> pi * (7 / 16) * 1"
    using p2 by (intro mult_left_mono) simp_all
  then have a2: "pi * (7 / 16) * p2 \<le> pi"
    using pi_gt_zero by linarith
  have c: "cos (pi * (7 / 16) * p2) \<le> cos (pi * (7 / 16) * p1)"
    using a1 a12 a2 by (rule cos_monotone_0_pi_le)
  have n1: "\<not> real_of_int s1 < w" using assms(1) by simp
  have n2: "\<not> real_of_int s2 < w" using assms(1,2) by linarith
  show ?thesis
    using c by (simp add: lr_lambda_cosine [OF n1] lr_lambda_cosine [OF n2] p1_def p2_def m_def max.coboundedI2)
qed

text \<open>
  Claim C4. For a step \<open>s \<ge> 0\<close> the multiplier lies in [0, 1]; below the warmup it is
  \<open>s / max(1, warmup)\<close>, hence 0 at step 0 when the warmup is positive, and it does not
  decrease along the warmup; from the warmup on it is
  \<open>max(0, cos(pi * 7/16 * progress))\<close> with
  \<open>progress = (s - warmup) / max(1, total - warmup)\<close>, and it does not increase between
  the warmup and the total number of steps.
\<close>

theorem lr_lambda_schedule:
  "(0 \<le> s \<longrightarrow> 0 \<le> lr_lambda w t s \<and> lr_lambda w t s \<le> 1)
   \<and> (real_of_int s < w \<longrightarrow> lr_lambda w t s = real_of_int s / max 1 w)
   \<and> (0 < w \<longrightarrow> lr_lambda w t 0 = 0)
   \<and> (s1 \<le> s2 \<and> real_of_int s2 < w \<longrightarrow> lr_lambda w t s1 \<le> lr_lambda w t s2)
   \<and> (\<not> real_of_int s < w \<longrightarrow>
        lr_lambda w t s
          = max 0 (cos (pi * (7 / 16) * ((real_of_int s - w) / max 1 (real_of_int t - w)))))
   \<and> (w \<le> real_of_int s3 \<and> s3 \<le> s4 \<and> s4 \<le> t \<longrightarrow> lr_lambda w t s4 \<le> lr_lambda w t s3)"
  using lr_lambda_range [of s w t] lr_lambda_warmup [of s w t] lr_lambda_warmup [of 0 w t]
    lr_lambda_warmup_mono [of s1 s2 w t] lr_lambda_cosine [of s w t]
    lr_lambda_decay_mono [of w s3 s4 t]
  by simp

theorem lr_lambda_schedule_witness:
  "(0::int) \<le> 1 \<and> real_of_int 1 < (2::real) \<and> (0::real) < 2 \<and> (1::int) \<le> 1
   \<and> \<not> real_of_int 2 < (2::real) \<and> (2::real) \<le> real_of_int 2 \<and> (2::int) \<le> 3 \<and> (3::int) \<le> 10
   \<and> lr_lambda 2 10 1 = 1 / 2
   \<and> lr_lambda 2 10 0 = 0
   \<and> lr_lambda 2 10 2 = 1
   \<and> lr_lambda 2 10 3 \<le> lr_lambda 2 10 2"
  using lr_lambda_schedule [of 1 2 10 1 1 2 3]
    lr_lambda_schedule [of 2 2 10 1 1 2 3]
  by simp

subsection \<open>The EMA update\<close>

lemma update_items_Inr:
  "update_items nm d msd items = Inr vs \<Longrightarrow>
   length vs = length items \<and>
   (\<forall>i<length items. \<exists>live.
      dict_get msd (lookup_key nm (fst (items ! i))) = Inr live \<and>
      vs ! i = d * snd (items ! i) + (1 - d) * live)"
proof (induction items arbitrary: vs)
  case Nil
  then show ?case by simp
next
  case (Cons a items)
  obtain k ema_v where a: "a = (k, ema_v)" by (cases a)
  from Cons.prems a obtain live vs' where
    l: "dict_get msd (lookup_key nm k) = Inr live" and
    r: "update_items nm d msd items = Inr vs'" and
    v: "vs = (ema_v * d + (1 - d) * live) # vs'"
    by (auto split: sum.splits)
  from Cons.IH [OF r] have ih: "length vs' = length items"
    "\<forall>i<length items. \<exists>live. dict_get msd (lookup_key nm (fst (items ! i))) = Inr live \<and>
        vs' ! i = d * snd (items ! i) + (1 - d) * live"
    by simp_all
  show ?case
  proof (intro conjI allI impI)
    show "length vs = length (a # items)" using ih(1) v by simp
  next
    fix i assume i: "i < length (a # items)"
    show "\<exists>live. dict_get msd (lookup_key nm (fst ((a # items) ! i))) = Inr live \<and>
            vs ! i = d * snd ((a # items) ! i) + (1 - d) * live"
    proof (cases i)
      case 0
      then show ?thesis using l v a by (simp add: mult.commute)
    next
      case (Suc j)
      then have "j < length items" using i by simp
      then show ?thesis using ih(2) Suc v by simp
    qed
  qed
qed

lemma dict_get_Inr_iff: "(\<exists>v. dict_get d k = Inr v) \<longleftrightarrow> k \<in> fst ` set d"
proof (cases "map_of d k")
  case None
  then show ?thesis using map_of_eq_None_iff [of d k] by (simp add: dict_get_def)
next
  case (Some v)
  then show ?thesis using map_of_eq_None_iff [of d k] by (simp add: dict_get_def)
qed

lemma dict_get_Inr: "k \<in> fst ` set d \<Longrightarrow> \<exists>v. dict_get d k = Inr v"
  by (simp add: dict_get_Inr_iff)

lemma dict_get_Inl: "k \<notin> fst ` set d \<Longrightarrow> dict_get d k = Inl (KeyError k)"
  by (simp add: dict_get_def map_of_eq_None_iff split: option.splits)

lemma update_items_total:
  "\<forall>k \<in> fst ` set items. lookup_key nm k \<in> fst ` set msd \<Longrightarrow>
   \<exists>vs. update_items nm d msd items = Inr vs"
proof (induction items)
  case Nil
  then show ?case by simp
next
  case (Cons a items)
  obtain k ema_v where a: "a = (k, ema_v)" by (cases a)
  have "lookup_key nm k \<in> fst ` set msd" using Cons.prems a by simp
  from dict_get_Inr [OF this] obtain live where l: "dict_get msd (lookup_key nm k) = Inr live" ..
  have "\<forall>k \<in> fst ` set items. lookup_key nm k \<in> fst ` set msd" using Cons.prems by simp
  from Cons.IH [OF this] obtain vs where "update_items nm d msd items = Inr vs" ..
  then show ?case using l a by simp
qed

lemma update_items_KeyError:
  "k \<in> fst ` set items \<Longrightarrow> lookup_key nm k \<notin> fst ` set msd \<Longrightarrow>
   \<exists>k'. update_items nm d msd items = Inl (KeyError k')"
proof (induction items)
  case Nil
  then show ?case by simp
next
  case (Cons a items)
  obtain k0 ema_v where a: "a = (k0, ema_v)" by (cases a)
  show ?case
  proof (cases "lookup_key nm k0 \<in> fst ` set msd")
    case False
    then show ?thesis using a by (simp add: dict_get_Inl)
  next
    case True
    from dict_get_Inr [OF this] obtain live where l: "dict_get msd (lookup_key nm k0) = Inr live" ..
    have "k \<noteq> k0" using True Cons.prems(2) by auto
    then have "k \<in> fst ` set items" using Cons.prems(1) a by auto
    from Cons.IH [OF this Cons.prems(2)] obtain k' where
      "update_items nm d msd items = Inl (KeyError k')" ..
    then show ?thesis using l a by simp
  qed
qed

lemma map_key_zip:
  "map (\<lambda>(k, v). (g k, v)) (zip ks vs) = zip (map g ks) vs"
proof (induction ks arbitrary: vs)
  case Nil
  show ?case by simp
next
  case (Cons k ks)
  show ?case by (cases vs) (simp_all add: Cons.IH)
qed

lemma map_fst_map_key: "map fst (map (\<lambda>(k, v). (g k, v)) sd) = map g (map fst sd)"
  by (induction sd) (simp_all add: case_prod_beta)

lemma state_dict_put_values:
  "state_dict (put_values m vs) = zip (map fst (state_dict m)) vs"
proof (induction m arbitrary: vs)
  case (Module sd)
  show ?case by simp
next
  case (DistributedDataParallel m)
  let ?g = "\<lambda>k. ''module.'' @ k"
  have "state_dict (put_values (DistributedDataParallel m) vs)
        = map (\<lambda>(k, v). (?g k, v)) (zip (map fst (state_dict m)) vs)"
    by (simp only: put_values.simps state_dict.simps DistributedDataParallel.IH)
  also have "\<dots> = zip (map ?g (map fst (state_dict m))) vs"
    by (rule map_key_zip)
  also have "map ?g (map fst (state_dict m)) = map fst (state_dict (DistributedDataParallel m))"
    by (simp only: state_dict.simps map_fst_map_key)
  finally show ?case .
qed

lemma ModelEMA_update_values:
  assumes "ModelEMA_update self live = Inr self'"
  shows "map fst (state_dict (ema self')) = map fst (state_dict (ema self))"
    and "\<forall>i<length (state_dict (ema self)). \<exists>live_v.
           dict_get (state_dict live)
             (lookup_key (has_module live \<and> \<not> ema_has_module self) (fst (state_dict (ema self) ! i)))
             = Inr live_v \<and>
           snd (state_dict (ema self') ! i)
             = decay self * snd (state_dict (ema self) ! i) + (1 - decay self) * live_v"
proof -
  let ?nm = "has_module live \<and> \<not> ema_has_module self"
  from assms obtain vs where
    vs: "update_items ?nm (decay self) (state_dict live) (state_dict (ema self)) = Inr vs" and
    s': "self' = self\<lparr> ema := put_values (ema self) vs \<rparr>"
    by (auto simp: ModelEMA_update_def Let_def split: sum.splits)
  from update_items_Inr [OF vs] have len: "length vs = length (state_dict (ema self))"
    and val: "\<forall>i<length (state_dict (ema self)). \<exists>live_v.
        dict_get (state_dict live) (lookup_key ?nm (fst (state_dict (ema self) ! i))) = Inr live_v \<and>
        vs ! i = decay self * snd (state_dict (ema self) ! i) + (1 - decay self) * live_v"
    by simp_all
  have sd: "state_dict (ema self') = zip (map fst (state_dict (ema self))) vs"
    by (simp add: s' state_dict_put_values)
  show "map fst (state_dict (ema self')) = map fst (state_dict (ema self))"
    using len by (simp add: sd)
  show "\<forall>i<length (state_dict (ema self)). \<exists>live_v.
           dict_get (state_dict live) (lookup_key ?nm (fst (state_dict (ema self) ! i))) = Inr live_v \<and>
           snd (state_dict (ema self') ! i)
             = decay self * snd (state_dict (ema self) ! i) + (1 - decay self) * live_v"
    using val len by (simp add: sd)
qed

lemma ModelEMA_update_total:
  assumes "\<forall>k \<in> fst ` set (state_dict (ema self)).
             lookup_key (has_module live \<and> \<not> ema_has_module self) k \<in> fst ` set (state_dict live)"
  shows "\<exists>self'. ModelEMA_update self live = Inr self'"
proof -
  from update_items_total [OF assms] obtain vs where
    "update_items (has_module live \<and> \<not> ema_has_module self) (decay self) (state_dict live)
       (state_dict (ema self)) = Inr vs" ..
  then show ?thesis by (simp add: ModelEMA_update_def)
qed

lemma ModelEMA_update_KeyError:
  assumes "k \<in> fst ` set (state_dict (ema self))"
    and "lookup_key (has_module live \<and> \<not> ema_has_module self) k \<notin> fst ` set (state_dict live)"
  shows "\<exists>k'. ModelEMA_update self live = Inl (KeyError k')"
proof -
  from update_items_KeyError [OF assms] obtain k' where
    "update_items (has_module live \<and> \<not> ema_has_module self) (decay self) (state_dict live)
       (state_dict (ema self)) = Inl (KeyError k')" ..
  then show ?thesis by (simp add: ModelEMA_update_def)
qed

lemma update_scalar:
  "ModelEMA_update (ModelEMA_init (Module [(''w'', x)]) d dev) (Module [(''w'', y)])
     = Inr (ModelEMA_init (Module [(''w'', x * d + (1 - d) * y)]) d dev)"
  by (simp add: ModelEMA_update_def ModelEMA_init_def dict_get_def lookup_key_def)

lemma update_repeated_geometric:
  "update_repeated n (ModelEMA_init (Module [(''w'', x)]) d dev) (Module [(''w'', 0)])
     = Inr (ModelEMA_init (Module [(''w'', x * d ^ n)]) d dev)"
proof (induction n arbitrary: x)
  case 0
  show ?case by simp
next
  case (Suc n)
  show ?case by (simp add: update_scalar Suc.IH mult.assoc)
qed

lemma geometric_shadow:
  "(\<forall>n. 0 < (10::real) * (9 / 10) ^ Suc n \<and> (10::real) * (9 / 10) ^ Suc n < 10 * (9 / 10) ^ n)
   \<and> (\<lambda>n. (10::real) * (9 / 10) ^ n) \<longlonglongrightarrow> 0"
proof
  show "\<forall>n. 0 < (10::real) * (9 / 10) ^ Suc n \<and> (10::real) * (9 / 10) ^ Suc n < 10 * (9 / 10) ^ n"
  proof
    fix n :: nat
    have p: "0 < (9 / 10 :: real) ^ n" by simp
    have "(9 / 10 :: real) ^ Suc n = (9 / 10) * (9 / 10) ^ n" by simp
    also have "\<dots> < 1 * (9 / 10) ^ n" using p by (intro mult_strict_right_mono) simp_all
    finally have "(9 / 10 :: real) ^ Suc n < (9 / 10) ^ n" by simp
    then show "0 < (10::real) * (9 / 10) ^ Suc n \<and> (10::real) * (9 / 10) ^ Suc n < 10 * (9 / 10) ^ n"
      by simp
  qed
  have "(\<lambda>n. (9 / 10 :: real) ^ n) \<longlonglongrightarrow> 0"
    by (rule LIMSEQ_realpow_zero) simp_all
  then show "(\<lambda>n. (10::real) * (9 / 10) ^ n) \<longlonglongrightarrow> 0"
    by (rule tendsto_mult_right_zero)
qed

text \<open>
  Claim C5. Whenever \<open>update\<close> returns, the shadow keeps its keys and every shadow value
  is \<open>decay * old_shadow + (1 - decay) * live_value\<close>, where the live value is the one
  that the live model's \<open>state_dict()\<close> holds under the looked-up key; \<open>update\<close>
  returns whenever every looked-up key is a key of the live model. With decay 0.9, shadow
  10 and live 0 the updated shadow is 9, and \<open>n\<close> updates with the live value fixed at 0
  leave a positive shadow value \<open>f n\<close> that strictly decreases in \<open>n\<close> and tends to 0.
\<close>

theorem ema_update_exact:
  "(ModelEMA_update self live = Inr self' \<longrightarrow>
      map fst (state_dict (ema self')) = map fst (state_dict (ema self)) \<and>
      (\<forall>i<length (state_dict (ema self)). \<exists>live_v.
         dict_get (state_dict live)
           (lookup_key (has_module live \<and> \<not> ema_has_module self) (fst (state_dict (ema self) ! i)))
           = Inr live_v \<and>
         snd (state_dict (ema self') ! i)
           = decay self * snd (state_dict (ema self) ! i) + (1 - decay self) * live_v))
   \<and> ((\<forall>k \<in> fst ` set (state_dict (ema self)).
          lookup_key (has_module live \<and> \<not> ema_has_module self) k \<in> fst ` set (state_dict live))
        \<longrightarrow> (\<exists>s. ModelEMA_update self live = Inr s))
   \<and> ModelEMA_update (ModelEMA_init (Module [(''w'', 10)]) (9 / 10) dev) (Module [(''w'', 0)])
        = Inr (ModelEMA_init (Module [(''w'', 9)]) (9 / 10) dev)
   \<and> (\<exists>f. (\<forall>n. update_repeated n (ModelEMA_init (Module [(''w'', 10)]) (9 / 10) dev)
                   (Module [(''w'', 0)])
                 = Inr (ModelEMA_init (Module [(''w'', f n)]) (9 / 10) dev))
          \<and> f 0 = 10 \<and> f 1 = 9
          \<and> (\<forall>n. 0 < f (Suc n) \<and> f (Suc n) < f n)
          \<and> f \<longlonglongrightarrow> 0)"
proof (intro conjI impI)
  assume a: "ModelEMA_update self live = Inr self'"
  show "map fst (state_dict (ema self')) = map fst (state_dict (ema self))"
    by (rule ModelEMA_update_values(1) [OF a])
  show "\<forall>i<length (state_dict (ema self)). \<exists>live_v.
         dict_get (state_dict live)
           (lookup_key (has_module live \<and> \<not> ema_has_module self) (fst (state_dict (ema self) ! i)))
           = Inr live_v \<and>
         snd (state_dict (ema self') ! i)
           = decay self * snd (state_dict (ema self) ! i) + (1 - decay self) * live_v"
    by (rule ModelEMA_update_values(2) [OF a])
next
  assume "\<forall>k \<in> fst ` set (state_dict (ema self)).
          lookup_key (has_module live \<and> \<not> ema_has_module self) k \<in> fst ` set (state_dict live)"
  then show "\<exists>s. ModelEMA_update self live = Inr s"
    by (rule ModelEMA_update_total)
next
  show "ModelEMA_update (ModelEMA_init (Module [(''w'', 10)]) (9 / 10) dev) (Module [(''w'', 0)])
        = Inr (ModelEMA_init (Module [(''w'', 9)]) (9 / 10) dev)"
    by (simp add: update_scalar)
next
  let ?f = "\<lambda>n. (10::real) * (9 / 10) ^ n"
  have "\<forall>n. update_repeated n (ModelEMA_init (Module [(''w'', 10)]) (9 / 10) dev)
                   (Module [(''w'', 0)])
                 = Inr (ModelEMA_init (Module [(''w'', ?f n)]) (9 / 10) dev)"
    by (simp add: update_repeated_geometric)
  moreover have "?f 0 = 10" "?f 1 = 9" by simp_all
  moreover note geometric_shadow
  ultimately show "\<exists>f. (\<forall>n. update_repeated n (ModelEMA_init (Module [(''w'', 10)]) (9 / 10) dev)
                   (Module [(''w'', 0)])
                 = Inr (ModelEMA_init (Module [(''w'', f n)]) (9 / 10) dev))
          \<and> f 0 = 10 \<and> f 1 = 9
          \<and> (\<forall>n. 0 < f (Suc n) \<and> f (Suc n) < f n)
          \<and> f \<longlonglongrightarrow> 0"
    by (intro exI [of _ ?f]) blast
qed

theorem ema_update_exact_witness:
  "ModelEMA_update (ModelEMA_init (Module [(''w'', 10)]) (9 / 10) ''cuda'') (Module [(''w'', 0)])
     = Inr (ModelEMA_init (Module [(''w'', 9)]) (9 / 10) ''cuda'')
   \<and> map fst (state_dict (ema (ModelEMA_init (Module [(''w'', 9)]) (9 / 10) ''cuda''))) = [''w'']
   \<and> snd (state_dict (ema (ModelEMA_init (Module [(''w'', 9)]) (9 / 10) ''cuda'')) ! 0)
       = 9 / 10 * 10 + (1 - 9 / 10) * 0"
  using ema_update_exact [of "ModelEMA_init (Module [(''w'', 10)]) (9 / 10) ''cuda''"
      "Module [(''w'', 0)]" "ModelEMA_init (Module [(''w'', 9)]) (9 / 10) ''cuda''" "''cuda''"]
  by (simp add: ModelEMA_init_def)

subsection \<open>Key reconciliation of the shadow model\<close>

lemma lookup_key_cases: "lookup_key nm k = k \<or> lookup_key nm k = ''module.'' @ k"
  by (simp add: lookup_key_def)

lemma rename_key_cases: "rename_key hm k = k \<or> rename_key hm k = ''module.'' @ k"
  by (simp add: rename_key_def)

lemma keys_foldl_update:
  "fst ` set (foldl (\<lambda>d (k, v). AList.update (g k) v d) acc items)
     = fst ` set acc \<union> g ` fst ` set items"
proof (induction items arbitrary: acc)
  case Nil
  show ?case by simp
next
  case (Cons a items)
  obtain k v where a: "a = (k, v)" by (cases a)
  show ?case
    by (auto simp: a Cons.IH AList.dom_update)
qed

lemma keys_new_state_dict:
  "fst ` set (new_state_dict hm sd) = rename_key hm ` fst ` set sd"
  by (simp add: new_state_dict_def keys_foldl_update)

lemma load_state_dict_missing:
  assumes "k \<in> fst ` set (state_dict m)" "k \<notin> fst ` set sd"
  shows "\<exists>missing unexpected. load_state_dict m sd = Inl (RuntimeError missing unexpected)
           \<and> k \<in> set missing"
proof -
  let ?missing = "filter (\<lambda>k. k \<notin> set (map fst sd)) (map fst (state_dict m))"
  have "k \<in> set ?missing" using assms by simp
  moreover from this have "?missing \<noteq> []" by (metis empty_iff empty_set)
  ultimately show ?thesis
    by (simp add: load_state_dict_def Let_def)
qed

lemma load_checkpoint_missing:
  assumes "map_of checkpoint ''ema_state_dict'' = Some (VStateDict sd)"
    and "k \<in> fst ` set (state_dict (ema self))"
    and "k \<notin> fst ` set sd"
    and "k \<notin> (\<lambda>k'. ''module.'' @ k') ` fst ` set sd"
  shows "\<exists>missing unexpected. load_checkpoint self checkpoint = Inl (RuntimeError missing unexpected)
           \<and> k \<in> set missing"
proof -
  have "k \<notin> rename_key (ema_has_module self) ` fst ` set sd"
  proof
    assume "k \<in> rename_key (ema_has_module self) ` fst ` set sd"
    then obtain k' where k': "k' \<in> fst ` set sd" "k = rename_key (ema_has_module self) k'"
      by blast
    from rename_key_cases [of "ema_has_module self" k'] k' assms(3,4) show False
      by auto
  qed
  then have "k \<notin> fst ` set (new_state_dict (ema_has_module self) sd)"
    by (simp add: keys_new_state_dict)
  from load_state_dict_missing [OF assms(2) this] obtain missing unexpected where
    "load_state_dict (ema self) (new_state_dict (ema_has_module self) sd)
       = Inl (RuntimeError missing unexpected)" "k \<in> set missing"
    by blast
  then show ?thesis
    using assms(1) by (simp add: load_checkpoint_def)
qed

text \<open>
  Claim C6 (as amended). When the live model is replication-wrapped and the shadow is not,
  \<open>update\<close> looks every shadow key up behind the prefix \<open>module.\<close>. If a shadow key
  is a key of the live model under neither naming, \<open>update\<close> raises \<open>KeyError\<close>. If the
  checkpoint holds a saved shadow state under \<open>ema_state_dict\<close> and a shadow key is a key
  of the saved state under neither naming, \<open>_load_checkpoint\<close> fails with the
  \<open>RuntimeError\<close> of \<open>load_state_dict\<close> that names the key as missing.
\<close>

theorem ema_key_reconciliation:
  "(has_module live \<and> \<not> ema_has_module self \<and> ModelEMA_update self live = Inr self' \<longrightarrow>
      (\<forall>i<length (state_dict (ema self)). \<exists>live_v.
         dict_get (state_dict live) (''module.'' @ fst (state_dict (ema self) ! i)) = Inr live_v \<and>
         snd (state_dict (ema self') ! i)
           = decay self * snd (state_dict (ema self) ! i) + (1 - decay self) * live_v))
   \<and> (k \<in> fst ` set (state_dict (ema self)) \<and> k \<notin> fst ` set (state_dict live)
        \<and> ''module.'' @ k \<notin> fst ` set (state_dict live)
        \<longrightarrow> (\<exists>k'. ModelEMA_update self live = Inl (KeyError k')))
   \<and> (map_of checkpoint ''ema_state_dict'' = Some (VStateDict sd)
        \<and> k \<in> fst ` set (state_dict (ema self)) \<and> k \<notin> fst ` set sd
        \<and> k \<notin> (\<lambda>k'. ''module.'' @ k') ` fst ` set sd
        \<longrightarrow> (\<exists>missing unexpected.
               load_checkpoint self checkpoint = Inl (RuntimeError missing unexpected)
               \<and> k \<in> set missing))"
proof (intro conjI impI)
  assume a: "has_module live \<and> \<not> ema_has_module self \<and> ModelEMA_update self live = Inr self'"
  then have nm: "(has_module live \<and> \<not> ema_has_module self) = True" by simp
  from a have u: "ModelEMA_update self live = Inr self'" by simp
  show "\<forall>i<length (state_dict (ema self)). \<exists>live_v.
         dict_get (state_dict live) (''module.'' @ fst (state_dict (ema self) ! i)) = Inr live_v \<and>
         snd (state_dict (ema self') ! i)
           = decay self * snd (state_dict (ema self) ! i) + (1 - decay self) * live_v"
    using ModelEMA_update_values(2) [OF u] unfolding nm lookup_key_def by (simp only: if_True)
next
  assume a: "k \<in> fst ` set (state_dict (ema self)) \<and> k \<notin> fst ` set (state_dict live)
        \<and> ''module.'' @ k \<notin> fst ` set (state_dict live)"
  have "lookup_key (has_module live \<and> \<not> ema_has_module self) k \<notin> fst ` set (state_dict live)"
  proof (cases "has_module live \<and> \<not> ema_has_module self")
    case True
    then show ?thesis using a by (simp add: lookup_key_def)
  next
    case False
    then show ?thesis using a by (simp add: lookup_key_def)
  qed
  then show "\<exists>k'. ModelEMA_update self live = Inl (KeyError k')"
    by (rule ModelEMA_update_KeyError [OF a [THEN conjunct1]])
next
  assume a: "map_of checkpoint ''ema_state_dict'' = Some (VStateDict sd)
        \<and> k \<in> fst ` set (state_dict (ema self)) \<and> k \<notin> fst ` set sd
        \<and> k \<notin> (\<lambda>k'. ''module.'' @ k') ` fst ` set sd"
  show "\<exists>missing unexpected.
               load_checkpoint self checkpoint = Inl (RuntimeError missing unexpected)
               \<and> k \<in> set missing"
    by (rule load_checkpoint_missing [OF a [THEN conjunct1] a [THEN conjunct2, THEN conjunct1]
          a [THEN conjunct2, THEN conjunct2, THEN conjunct1]
          a [THEN conjunct2, THEN conjunct2, THEN conjunct2]])
qed

theorem ema_key_reconciliation_witness:
  "has_module (DistributedDataParallel (Module [(''w'', 0)]))
   \<and> \<not> ema_has_module (ModelEMA_init (Module [(''w'', 10)]) (9 / 10) ''cuda'')
   \<and> ModelEMA_update (ModelEMA_init (Module [(''w'', 10)]) (9 / 10) ''cuda'')
         (DistributedDataParallel (Module [(''w'', 0)]))
       = Inr (ModelEMA_init (Module [(''w'', 9)]) (9 / 10) ''cuda'')
   \<and> dict_get (state_dict (DistributedDataParallel (Module [(''w'', 0)]))) ''module.w'' = Inr 0
   \<and> ModelEMA_update (ModelEMA_init (Module [(''w'', 10)]) (9 / 10) ''cuda'')
         (DistributedDataParallel (Module [(''v'', 0)]))
       = Inl (KeyError ''module.w'')
   \<and> load_checkpoint (ModelEMA_init (Module [(''w'', 10)]) (9 / 10) ''cuda'')
         [(''ema_state_dict'', VStateDict [(''v'', 1)] :: (unit, unit) ckpt_value)]
       = Inl (RuntimeError [''w''] [''v''])"
  using ema_key_reconciliation [of "DistributedDataParallel (Module [(''w'', 0)])"
      "ModelEMA_init (Module [(''w'', 10)]) (9 / 10) ''cuda''"
      "ModelEMA_init (Module [(''w'', 9)]) (9 / 10) ''cuda''" "''w''"
      "[(''ema_state_dict'', VStateDict [(''v'', 1)] :: (unit, unit) ckpt_value)]" "[(''v'', 1)]"]
    ema_key_reconciliation [of "DistributedDataParallel (Module [(''v'', 0)])"
      "ModelEMA_init (Module [(''w'', 10)]) (9 / 10) ''cuda''"
      "ModelEMA_init (Module [(''w'', 9)]) (9 / 10) ''cuda''" "''w''"
      "[(''ema_state_dict'', VStateDict [(''v'', 1)] :: (unit, unit) ckpt_value)]" "[(''v'', 1)]"]
  by (simp add: ModelEMA_init_def ModelEMA_update_def dict_get_def lookup_key_def
      load_checkpoint_def load_state_dict_def new_state_dict_def rename_key_def)

text \<open>
  A checkpoint dictionary without the key \<open>ema_state_dict\<close>: the shadow key \<open>w\<close> matches
  nothing, and \<open>_load_checkpoint\<close> returns with the shadow as it was.
\<close>

theorem load_checkpoint_skips_counterexample:
  "load_checkpoint (ModelEMA_init (Module [(''w'', 10)]) (9 / 10) ''cuda'')
       ([] :: (unit, unit) checkpoint)
     = Inr (ModelEMA_init (Module [(''w'', 10)]) (9 / 10) ''cuda'')
   \<and> state_dict (ema (ModelEMA_init (Module [(''w'', 10)]) (9 / 10) ''cuda'')) = [(''w'', 10)]"
  by (simp add: load_checkpoint_def ModelEMA_init_def)

subsection \<open>Checkpoint round trip\<close>

lemma dict_get_schduler:
  "dict_get (checkpoint_record epoch test_acc st) ''schduler'' = Inl (KeyError ''schduler'')"
  by (simp add: dict_get_def checkpoint_record_def)

lemma and_then_Inl: "and_then (Inl e) f = Inl e"
  by (simp add: and_then_def)

lemma and_then_isl: "(\<And>x. isl (f x)) \<Longrightarrow> isl (and_then r f)"
  by (cases r) (simp_all add: and_then_def)

lemma resume_fails: "isl (resume st' (checkpoint_record epoch test_acc st))"
  unfolding resume_def
  apply (rule and_then_isl, rule and_then_isl, rule and_then_isl, rule and_then_isl)
  apply (rule and_then_isl, rule and_then_isl, rule and_then_isl, rule and_then_isl)
  apply (rule and_then_isl, rule and_then_isl, rule and_then_isl)
  apply (simp add: dict_get_schduler and_then_Inl)
  done

text \<open>
  Claim C1. The saved record stores \<open>epoch + 1\<close> under \<open>epoch\<close> and uses the field
  names \<open>epoch\<close>, \<open>state_dict\<close>, \<open>ema_state_dict\<close>, \<open>acc\<close>, \<open>best_acc\<close>,
  \<open>optimizer\<close>, \<open>scheduler\<close>; the resume block reads \<open>schduler\<close>, so resuming from a
  record that the save path wrote never succeeds, and for a process whose model and
  shadow have the saved keys it raises \<open>KeyError\<close> for \<open>schduler\<close>.
\<close>

theorem resume_reads_misspelt_key:
  "dict_get (checkpoint_record epoch test_acc st) ''epoch'' = Inr (VInt (epoch + 1))
   \<and> map fst (checkpoint_record epoch test_acc st)
       = [''epoch'', ''state_dict'', ''ema_state_dict'', ''acc'', ''best_acc'', ''optimizer'',
          ''scheduler'']
   \<and> isl (resume st' (checkpoint_record epoch test_acc st))
   \<and> resume
        \<lparr> best_acc = 0, start_epoch = 0, model = Module [(''w'', 0)],
          ema_model = Some (ModelEMA_init (Module [(''w'', 0)]) (999 / 1000) ''cuda''),
          optimizer = (), scheduler = (0::nat) \<rparr>
        (checkpoint_record 0 70
          \<lparr> best_acc = 70, start_epoch = 0, model = Module [(''w'', 1)],
            ema_model = Some (ModelEMA_init (Module [(''w'', 2)]) (999 / 1000) ''cuda''),
            optimizer = (), scheduler = (1024::nat) \<rparr>)
       = Inl (KeyError ''schduler'')"
proof (intro conjI)
  show "dict_get (checkpoint_record epoch test_acc st) ''epoch'' = Inr (VInt (epoch + 1))"
    by (simp add: dict_get_def checkpoint_record_def)
  show "map fst (checkpoint_record epoch test_acc st)
       = [''epoch'', ''state_dict'', ''ema_state_dict'', ''acc'', ''best_acc'', ''optimizer'',
          ''scheduler'']"
    by (simp add: checkpoint_record_def)
  show "isl (resume st' (checkpoint_record epoch test_acc st))"
    by (rule resume_fails)
  show "resume
        \<lparr> best_acc = 0, start_epoch = 0, model = Module [(''w'', 0)],
          ema_model = Some (ModelEMA_init (Module [(''w'', 0)]) (999 / 1000) ''cuda''),
          optimizer = (), scheduler = (0::nat) \<rparr>
        (checkpoint_record 0 70
          \<lparr> best_acc = 70, start_epoch = 0, model = Module [(''w'', 1)],
            ema_model = Some (ModelEMA_init (Module [(''w'', 2)]) (999 / 1000) ''cuda''),
            optimizer = (), scheduler = (1024::nat) \<rparr>)
       = Inl (KeyError ''schduler'')"
    by (simp add: resume_def and_then_def dict_get_def checkpoint_record_def as_state_dict_def
        as_optimizer_def load_state_dict_def ModelEMA_init_def)
qed

subsection \<open>Pseudo-labels and the confidence mask\<close>

lemma and_then_Inr: "and_then (Inr x) f = f x"
  by (simp add: and_then_def)

lemma collect_all_Inr:
  "\<forall>x \<in> set xs. g x = Inr (h x) \<Longrightarrow> collect (map g xs) = Inr (map h xs)"
  by (induction xs) (simp_all add: and_then_Inr)

lemma max_from_inv:
  "i < length pre \<Longrightarrow> pre ! i = m \<Longrightarrow> m = Max (set pre) \<Longrightarrow>
   max_from m i (length pre) xs = (m', i') \<Longrightarrow>
   m' = Max (set (pre @ xs)) \<and> i' < length (pre @ xs) \<and> (pre @ xs) ! i' = m'"
proof (induction xs arbitrary: pre m i)
  case Nil
  then show ?case by simp
next
  case (Cons x xs)
  have ne: "set pre \<noteq> {}" using Cons.prems(1) by auto
  have mx: "Max (set (pre @ [x])) = max x (Max (set pre))"
    using ne by simp
  show ?case
  proof (cases "x > m")
    case True
    have r: "max_from x (length pre) (length (pre @ [x])) xs = (m', i')"
      using Cons.prems(4) True by simp
    have "m' = Max (set ((pre @ [x]) @ xs)) \<and> i' < length ((pre @ [x]) @ xs)
            \<and> ((pre @ [x]) @ xs) ! i' = m'"
    proof (rule Cons.IH [OF _ _ _ r])
      show "length pre < length (pre @ [x])" by simp
      show "(pre @ [x]) ! length pre = x" by simp
      show "x = Max (set (pre @ [x]))" using True Cons.prems(3) mx by simp
    qed
    then show ?thesis by simp
  next
    case False
    have r: "max_from m i (length (pre @ [x])) xs = (m', i')"
      using Cons.prems(4) False by simp
    have "m' = Max (set ((pre @ [x]) @ xs)) \<and> i' < length ((pre @ [x]) @ xs)
            \<and> ((pre @ [x]) @ xs) ! i' = m'"
    proof (rule Cons.IH [OF _ _ _ r])
      show "i < length (pre @ [x])" using Cons.prems(1) by simp
      show "(pre @ [x]) ! i = m" using Cons.prems(1,2) by (simp add: nth_append)
      show "m = Max (set (pre @ [x]))" using False Cons.prems(3) mx by simp
    qed
    then show ?thesis by simp
  qed
qed

lemma torch_max_nonempty:
  assumes "xs \<noteq> []"
  shows "\<exists>i. torch_max xs = Inr (Max (set xs), i) \<and> i < length xs \<and> xs ! i = Max (set xs)"
proof -
  from assms obtain x ys where xs: "xs = x # ys" by (cases xs) auto
  obtain m' i' where r: "max_from x 0 (length [x]) ys = (m', i')"
    by (cases "max_from x 0 (length [x]) ys")
  have "m' = Max (set ([x] @ ys)) \<and> i' < length ([x] @ ys) \<and> ([x] @ ys) ! i' = m'"
    by (rule max_from_inv [OF _ _ _ r]) simp_all
  then show ?thesis using r xs by simp
qed

text \<open>The index that \<open>torch.max\<close> returns for a row.\<close>

lemma torch_max_Inr:
  "xs \<noteq> [] \<Longrightarrow> torch_max xs = Inr (Max (set xs), snd (projr (torch_max xs)))"
  using torch_max_nonempty [of xs] by auto

lemma softmax_length: "length (softmax xs) = length xs"
  by (simp add: softmax_def)

lemma pseudo_labels_Inr:
  assumes "\<forall>row \<in> set ls. row \<noteq> []"
  shows "pseudo_labels thr ls
         = Inr (map (\<lambda>row. snd (projr (torch_max (softmax row)))) ls,
                map (\<lambda>row. if Max (set (softmax row)) \<ge> thr then 1 else 0) ls)"
proof -
  have "\<forall>p \<in> set (map softmax ls).
          torch_max p = Inr (Max (set p), snd (projr (torch_max p)))"
  proof
    fix p assume "p \<in> set (map softmax ls)"
    then obtain row where row: "row \<in> set ls" "p = softmax row" by auto
    then have "length p \<noteq> 0" using assms by (simp add: softmax_length)
    then have "p \<noteq> []" by simp
    then show "torch_max p = Inr (Max (set p), snd (projr (torch_max p)))"
      by (rule torch_max_Inr)
  qed
  then have "collect (map torch_max (map softmax ls))
        = Inr (map (\<lambda>p. (Max (set p), snd (projr (torch_max p)))) (map softmax ls))"
    by (rule collect_all_Inr)
  then show ?thesis
    by (simp add: pseudo_labels_def Let_def and_then_Inr comp_def)
qed

lemma sum_list_map2_nth:
  "length xs = length ys \<Longrightarrow>
   sum_list (map2 f xs ys) = (\<Sum>i<length xs. f (xs ! i) (ys ! i))"
proof -
  assume l: "length xs = length ys"
  have "sum_list (map2 f xs ys) = (\<Sum>i = 0..<length (map2 f xs ys). map2 f xs ys ! i)"
    by (rule sum_list_sum_nth)
  also have "\<dots> = (\<Sum>i = 0..<length xs. f (xs ! i) (ys ! i))"
    using l by (intro sum.cong) simp_all
  finally show ?thesis by (simp add: atLeast0LessThan)
qed

lemma masked_sum:
  assumes "length ce = length ms" "\<forall>i<length ms. ms ! i = 0 \<or> ms ! i = (1::real)"
  shows "sum_list (map2 (*) ce ms) = (\<Sum>i \<in> {i. i < length ms \<and> ms ! i = 1}. ce ! i)"
proof -
  have "sum_list (map2 (*) ce ms) = (\<Sum>i<length ms. ce ! i * ms ! i)"
    using sum_list_map2_nth [OF assms(1), of "(*)"] assms(1) by simp
  also have "\<dots> = (\<Sum>i<length ms. if ms ! i = 1 then ce ! i else 0)"
    using assms(2) by (intro sum.cong) auto
  also have "\<dots> = (\<Sum>i \<in> {i \<in> {..<length ms}. ms ! i = 1}. ce ! i)"
    by (rule sum.inter_filter [symmetric]) simp
  also have "{i \<in> {..<length ms}. ms ! i = 1} = {i. i < length ms \<and> ms ! i = 1}"
    by auto
  finally show ?thesis .
qed

lemma collect_length: "collect rs = Inr xs \<Longrightarrow> length xs = length rs"
proof (induction rs arbitrary: xs)
  case Nil
  then show ?case by simp
next
  case (Cons r rs)
  from Cons.prems obtain x ys where "r = Inr x" "collect rs = Inr ys" "xs = x # ys"
    by (auto simp: and_then_def split: sum.splits)
  then show ?case using Cons.IH by simp
qed

lemma cross_entropy_none_length:
  "cross_entropy_none ls ts = Inr ce \<Longrightarrow> length ls = length ts \<and> length ce = length ts"
  by (auto simp: cross_entropy_none_def dest: collect_length split: if_splits)

lemma unsupervised_loss_Inr:
  assumes "unsupervised_loss ls ts ms = Inr Lu"
  shows "\<exists>ce. cross_entropy_none ls ts = Inr ce \<and> Lu = mean (map2 (*) ce ms)"
  using assms by (auto simp: unsupervised_loss_def and_then_def split: sum.splits)

text \<open>
  Claim C2. For weak-view logits with at least one class per row, \<open>pseudo_labels\<close>
  returns one target and one mask entry per example; the mask entry is 1 when the maximum
  of the row's softmax reaches the threshold and 0 otherwise, never another value; the
  target is an index at which the softmax takes its maximum; and whenever the unsupervised
  loss is computed with these targets and this mask, the product of the cross-entropy and
  the mask is 0 at every example with mask 0, so that \<open>Lu\<close> is the sum of the
  cross-entropies of the examples with mask 1 divided by the batch size.
\<close>

theorem pseudo_label_mask:
  "(\<forall>row \<in> set logits_u_w. row \<noteq> []) \<longrightarrow>
   (\<exists>targets_u mask_u.
      pseudo_labels threshold logits_u_w = Inr (targets_u, mask_u)
      \<and> length targets_u = length logits_u_w \<and> length mask_u = length logits_u_w
      \<and> (\<forall>i<length logits_u_w.
           (Max (set (softmax (logits_u_w ! i))) \<ge> threshold \<longrightarrow> mask_u ! i = 1)
           \<and> (\<not> Max (set (softmax (logits_u_w ! i))) \<ge> threshold \<longrightarrow> mask_u ! i = 0)
           \<and> (mask_u ! i = 0 \<or> mask_u ! i = 1)
           \<and> targets_u ! i < length (logits_u_w ! i)
           \<and> softmax (logits_u_w ! i) ! (targets_u ! i) = Max (set (softmax (logits_u_w ! i))))
      \<and> (\<forall>logits_u_s Lu. unsupervised_loss logits_u_s targets_u mask_u = Inr Lu \<longrightarrow>
           (\<exists>ce. cross_entropy_none logits_u_s targets_u = Inr ce
              \<and> length ce = length mask_u
              \<and> (\<forall>i<length mask_u. mask_u ! i = 0 \<longrightarrow> map2 (*) ce mask_u ! i = 0)
              \<and> Lu = (\<Sum>i \<in> {i. i < length mask_u \<and> mask_u ! i = 1}. ce ! i)
                       / real (length mask_u))))"
proof
  assume ne: "\<forall>row \<in> set logits_u_w. row \<noteq> []"
  define targets_u where
    "targets_u = map (\<lambda>row. snd (projr (torch_max (softmax row)))) logits_u_w"
  define mask_u :: "real list" where
    "mask_u = map (\<lambda>row. if Max (set (softmax row)) \<ge> threshold then 1 else 0) logits_u_w"
  have pl: "pseudo_labels threshold logits_u_w = Inr (targets_u, mask_u)"
    unfolding targets_u_def mask_u_def by (rule pseudo_labels_Inr [OF ne])
  have lt: "length targets_u = length logits_u_w" by (simp add: targets_u_def)
  have lm: "length mask_u = length logits_u_w" by (simp add: mask_u_def)
  have m01: "\<forall>i<length mask_u. mask_u ! i = 0 \<or> mask_u ! i = 1"
    by (simp add: mask_u_def)
  have rows: "\<forall>i<length logits_u_w.
           (Max (set (softmax (logits_u_w ! i))) \<ge> threshold \<longrightarrow> mask_u ! i = 1)
           \<and> (\<not> Max (set (softmax (logits_u_w ! i))) \<ge> threshold \<longrightarrow> mask_u ! i = 0)
           \<and> (mask_u ! i = 0 \<or> mask_u ! i = 1)
           \<and> targets_u ! i < length (logits_u_w ! i)
           \<and> softmax (logits_u_w ! i) ! (targets_u ! i) = Max (set (softmax (logits_u_w ! i)))"
  proof (intro allI impI)
    fix i assume i: "i < length logits_u_w"
    let ?p = "softmax (logits_u_w ! i)"
    have "logits_u_w ! i \<noteq> []" using ne i by simp
    then have "length ?p \<noteq> 0" by (simp add: softmax_length)
    then have "?p \<noteq> []" by simp
    from torch_max_nonempty [OF this] obtain j where
      j: "torch_max ?p = Inr (Max (set ?p), j)" "j < length ?p" "?p ! j = Max (set ?p)"
      by blast
    have t: "targets_u ! i = j" using i j(1) by (simp add: targets_u_def)
    show "(Max (set ?p) \<ge> threshold \<longrightarrow> mask_u ! i = 1)
           \<and> (\<not> Max (set ?p) \<ge> threshold \<longrightarrow> mask_u ! i = 0)
           \<and> (mask_u ! i = 0 \<or> mask_u ! i = 1)
           \<and> targets_u ! i < length (logits_u_w ! i)
           \<and> ?p ! (targets_u ! i) = Max (set ?p)"
      using i j(2,3) t by (simp add: mask_u_def softmax_length)
  qed
  have lu: "\<forall>logits_u_s Lu. unsupervised_loss logits_u_s targets_u mask_u = Inr Lu \<longrightarrow>
           (\<exists>ce. cross_entropy_none logits_u_s targets_u = Inr ce
              \<and> length ce = length mask_u
              \<and> (\<forall>i<length mask_u. mask_u ! i = 0 \<longrightarrow> map2 (*) ce mask_u ! i = 0)
              \<and> Lu = (\<Sum>i \<in> {i. i < length mask_u \<and> mask_u ! i = 1}. ce ! i)
                       / real (length mask_u))"
  proof (intro allI impI)
    fix logits_u_s Lu
    assume "unsupervised_loss logits_u_s targets_u mask_u = Inr Lu"
    from unsupervised_loss_Inr [OF this] obtain ce where
      ce: "cross_entropy_none logits_u_s targets_u = Inr ce" "Lu = mean (map2 (*) ce mask_u)"
      by blast
    from cross_entropy_none_length [OF ce(1)] have len: "length ce = length mask_u"
      using lt lm by simp
    have z: "\<forall>i<length mask_u. mask_u ! i = 0 \<longrightarrow> map2 (*) ce mask_u ! i = 0"
      using len by simp
    have "Lu = (\<Sum>i \<in> {i. i < length mask_u \<and> mask_u ! i = 1}. ce ! i) / real (length mask_u)"
      using masked_sum [OF len m01] len by (simp add: ce(2) mean_def)
    with ce(1) len z show "\<exists>ce. cross_entropy_none logits_u_s targets_u = Inr ce
              \<and> length ce = length mask_u
              \<and> (\<forall>i<length mask_u. mask_u ! i = 0 \<longrightarrow> map2 (*) ce mask_u ! i = 0)
              \<and> Lu = (\<Sum>i \<in> {i. i < length mask_u \<and> mask_u ! i = 1}. ce ! i)
                       / real (length mask_u)"
      by blast
  qed
  show "\<exists>targets_u mask_u.
      pseudo_labels threshold logits_u_w = Inr (targets_u, mask_u)
      \<and> length targets_u = length logits_u_w \<and> length mask_u = length logits_u_w
      \<and> (\<forall>i<length logits_u_w.
           (Max (set (softmax (logits_u_w ! i))) \<ge> threshold \<longrightarrow> mask_u ! i = 1)
           \<and> (\<not> Max (set (softmax (logits_u_w ! i))) \<ge> threshold \<longrightarrow> mask_u ! i = 0)
           \<and> (mask_u ! i = 0 \<or> mask_u ! i = 1)
           \<and> targets_u ! i < length (logits_u_w ! i)
           \<and> softmax (logits_u_w ! i) ! (targets_u ! i) = Max (set (softmax (logits_u_w ! i))))
      \<and> (\<forall>logits_u_s Lu. unsupervised_loss logits_u_s targets_u mask_u = Inr Lu \<longrightarrow>
           (\<exists>ce. cross_entropy_none logits_u_s targets_u = Inr ce
              \<and> length ce = length mask_u
              \<and> (\<forall>i<length mask_u. mask_u ! i = 0 \<longrightarrow> map2 (*) ce mask_u ! i = 0)
              \<and> Lu = (\<Sum>i \<in> {i. i < length mask_u \<and> mask_u ! i = 1}. ce ! i)
                       / real (length mask_u)))"
    apply (rule exI [of _ targets_u], rule exI [of _ mask_u])
    apply (intro conjI)
        apply (rule pl, rule lt, rule lm, rule rows, rule lu)
    done
qed

theorem pseudo_label_mask_witness:
  "[ln (97 / 100), ln (2 / 100), ln (1 / 100)] \<noteq> ([]::real list)
   \<and> [ln (5 / 10), ln (3 / 10), ln (2 / 10)] \<noteq> ([]::real list)
   \<and> softmax [ln (97 / 100), ln (2 / 100), ln (1 / 100)] = [97 / 100, 2 / 100, 1 / 100]
   \<and> pseudo_labels (95 / 100)
        [[ln (97 / 100), ln (2 / 100), ln (1 / 100)], [ln (5 / 10), ln (3 / 10), ln (2 / 10)]]
       = Inr ([0, 0], [1, 0])"
  using pseudo_label_mask [of
      "[[ln (97 / 100), ln (2 / 100), ln (1 / 100)], [ln (5 / 10), ln (3 / 10), ln (2 / 10)]]"
      "95 / 100"]
  by (simp add: pseudo_labels_def softmax_def and_then_def)

subsection \<open>The losses of a training step\<close>

lemma cross_entropy_none_Inr:
  assumes "length ls = length ts" "\<forall>i<length ts. ts ! i < length (ls ! i)"
  shows "cross_entropy_none ls ts = Inr (map2 (\<lambda>row t. - (log_softmax row ! t)) ls ts)"
proof -
  have "\<forall>x \<in> set (zip ls ts).
          (\<lambda>(row, t). cross_entropy_row row t) x = Inr ((\<lambda>(row, t). - (log_softmax row ! t)) x)"
  proof
    fix x assume "x \<in> set (zip ls ts)"
    then obtain i where i: "i < length ts" "x = (ls ! i, ts ! i)"
      using assms(1) by (auto simp: set_zip)
    then have "ts ! i < length (ls ! i)" using assms(2) by simp
    then show "(\<lambda>(row, t). cross_entropy_row row t) x
                 = Inr ((\<lambda>(row, t). - (log_softmax row ! t)) x)"
      by (simp add: i(2) cross_entropy_row_def)
  qed
  then have "collect (map (\<lambda>(row, t). cross_entropy_row row t) (zip ls ts))
               = Inr (map (\<lambda>(row, t). - (log_softmax row ! t)) (zip ls ts))"
    by (rule collect_all_Inr)
  then show ?thesis using assms(1) by (simp add: cross_entropy_none_def)
qed

lemma cross_entropy_mean_value:
  assumes "length ls = length ts" "\<forall>i<length ts. ts ! i < length (ls ! i)"
  shows "cross_entropy_mean ls ts
         = Inr ((\<Sum>i<length ts. - (log_softmax (ls ! i) ! (ts ! i))) / real (length ts))"
proof -
  have "sum_list (map2 (\<lambda>row t. - (log_softmax row ! t)) ls ts)
          = (\<Sum>i<length ls. - (log_softmax (ls ! i) ! (ts ! i)))"
    by (rule sum_list_map2_nth [OF assms(1)])
  then show ?thesis
    using assms(1) by (simp add: cross_entropy_mean_def cross_entropy_none_Inr [OF assms]
        and_then_Inr mean_def)
qed

lemma unsupervised_loss_value:
  assumes "length ls = length ts" "length ms = length ts"
    and "\<forall>i<length ts. ts ! i < length (ls ! i)"
  shows "unsupervised_loss ls ts ms
         = Inr ((\<Sum>i<length ts. ms ! i * - (log_softmax (ls ! i) ! (ts ! i))) / real (length ts))"
proof -
  let ?ce = "map2 (\<lambda>row t. - (log_softmax row ! t)) ls ts"
  have len: "length ?ce = length ms" using assms(1,2) by simp
  have "sum_list (map2 (*) ?ce ms) = (\<Sum>i<length ?ce. ?ce ! i * ms ! i)"
    by (rule sum_list_map2_nth [OF len])
  also have "\<dots> = (\<Sum>i<length ts. ms ! i * - (log_softmax (ls ! i) ! (ts ! i)))"
    using assms(1) by (intro sum.cong) simp_all
  finally show ?thesis
    using assms(1,2)
    by (simp add: unsupervised_loss_def cross_entropy_none_Inr [OF assms(1,3)] and_then_Inr mean_def)
qed

lemma chunk2_even: "length xs = 2 * n \<Longrightarrow> chunk2 xs = Inr (take n xs, drop n xs)"
proof -
  assume l: "length xs = 2 * n"
  have "2 * n \<noteq> 1" by presburger
  then show ?thesis using l by (simp add: chunk2_def Let_def)
qed

lemma pseudo_labels_in_range:
  assumes "\<forall>row \<in> set ls. row \<noteq> []"
  shows "\<exists>ts ms. pseudo_labels thr ls = Inr (ts, ms) \<and> length ts = length ls
           \<and> length ms = length ls \<and> (\<forall>i<length ls. ts ! i < length (ls ! i))"
proof -
  let ?ts = "map (\<lambda>row. snd (projr (torch_max (softmax row)))) ls"
  let ?ms = "map (\<lambda>row. if Max (set (softmax row)) \<ge> thr then 1 else 0 :: real) ls"
  have "\<forall>i<length ls. ?ts ! i < length (ls ! i)"
  proof (intro allI impI)
    fix i assume i: "i < length ls"
    let ?p = "softmax (ls ! i)"
    have "ls ! i \<noteq> []" using assms i by simp
    then have "length ?p \<noteq> 0" by (simp add: softmax_length)
    then have "?p \<noteq> []" by simp
    from torch_max_nonempty [OF this] obtain j where
      "torch_max ?p = Inr (Max (set ?p), j)" "j < length ?p" by blast
    then show "?ts ! i < length (ls ! i)" using i by (simp add: softmax_length)
  qed
  then show ?thesis
    using pseudo_labels_Inr [OF assms, of thr] by simp
qed

text \<open>
  Claim C3. For a labeled batch of \<open>bs > 0\<close> examples with their targets, an unlabeled
  batch of \<open>n > 0\<close> weak and \<open>n\<close> strong views, and a model whose forward pass returns
  one row of \<open>num_classes > 0\<close> scores per input, \<open>train_losses\<close> returns, and:
  \<open>Lx\<close> is the mean over the labeled rows of the cross-entropy against the true labels,
  \<open>Lu\<close> is the mean over the unlabeled batch of
  \<open>mask[i] * cross_entropy(logits_strong[i], pseudo_label[i])\<close>, with the pseudo-labels and
  the mask computed from the weak rows, and the loss is \<open>Lx + lambda_u * Lu\<close>.
\<close>

theorem train_losses_value:
  assumes fw: "length (forward (inputs_x @ inputs_u_w @ inputs_u_s))
                 = length inputs_x + length inputs_u_w + length inputs_u_s"
    and tx: "length targets_x = length inputs_x"
    and us: "length inputs_u_s = length inputs_u_w"
    and pos: "0 < length inputs_x" "0 < length inputs_u_w" "0 < num_classes"
    and rows: "\<forall>row \<in> set (forward (inputs_x @ inputs_u_w @ inputs_u_s)). length row = num_classes"
    and cls: "\<forall>t \<in> set targets_x. t < num_classes"
  shows "let logits = forward (inputs_x @ inputs_u_w @ inputs_u_s);
             bs = length inputs_x; n = length inputs_u_w
         in \<exists>targets_u mask_u Lx Lu.
              pseudo_labels threshold (take n (drop bs logits)) = Inr (targets_u, mask_u)
              \<and> train_losses threshold lambda_u forward (inputs_x, targets_x) (inputs_u_w, inputs_u_s)
                  = Inr (Lx + lambda_u * Lu, Lx, Lu, mask_u)
              \<and> Lx = (\<Sum>i<bs. - (log_softmax (logits ! i) ! (targets_x ! i))) / real bs
              \<and> Lu = (\<Sum>i<n. mask_u ! i * - (log_softmax (logits ! (bs + n + i)) ! (targets_u ! i)))
                       / real n"
proof -
  define logits where "logits = forward (inputs_x @ inputs_u_w @ inputs_u_s)"
  define bs where "bs = length inputs_x"
  define n where "n = length inputs_u_w"
  define weak where "weak = take n (drop bs logits)"
  define strong where "strong = drop n (drop bs logits)"
  have len: "length logits = bs + n + n"
    using fw us by (simp add: logits_def bs_def n_def)
  have rowlen: "\<And>i. i < bs + n + n \<Longrightarrow> length (logits ! i) = num_classes"
    using rows len by (simp add: logits_def [symmetric])
  have ch: "chunk2 (drop bs logits) = Inr (weak, strong)"
    unfolding weak_def strong_def by (rule chunk2_even) (simp add: len)
  have lx_len: "length (take bs logits) = length targets_x"
    using len tx by (simp add: bs_def)
  have lx_rng: "\<forall>i<length targets_x. targets_x ! i < length (take bs logits ! i)"
    using cls tx rowlen by (simp add: bs_def [symmetric])
  have Lx: "cross_entropy_mean (take bs logits) targets_x
        = Inr ((\<Sum>i<bs. - (log_softmax (logits ! i) ! (targets_x ! i))) / real bs)"
    using cross_entropy_mean_value [OF lx_len lx_rng] tx by (simp add: bs_def [symmetric])
  have wlen: "length weak = n" using len by (simp add: weak_def)
  have slen: "length strong = n" using len by (simp add: strong_def)
  have wnth: "\<And>i. i < n \<Longrightarrow> weak ! i = logits ! (bs + i)"
    using len by (simp add: weak_def)
  have snth: "\<And>i. i < n \<Longrightarrow> strong ! i = logits ! (bs + n + i)"
    using len by (simp add: strong_def add.assoc add.left_commute add.commute)
  have "\<forall>row \<in> set weak. row \<noteq> []"
  proof
    fix row assume "row \<in> set weak"
    then obtain i where "i < n" "row = weak ! i" using wlen by (auto simp: in_set_conv_nth)
    then have "length row = num_classes" using wnth rowlen by simp
    then show "row \<noteq> []" using pos(3) by auto
  qed
  from pseudo_labels_in_range [OF this, of threshold] obtain ts ms where
    pl: "pseudo_labels threshold weak = Inr (ts, ms)" and tl: "length ts = n"
    and ml: "length ms = n" and tr: "\<forall>i<n. ts ! i < length (weak ! i)"
    using wlen by auto
  have st: "length strong = length ts" using slen tl by simp
  have mt: "length ms = length ts" using ml tl by simp
  have sr: "\<forall>i<length ts. ts ! i < length (strong ! i)"
    using tr tl wnth snth rowlen by simp
  have Lu: "unsupervised_loss strong ts ms
        = Inr ((\<Sum>i<n. ms ! i * - (log_softmax (logits ! (bs + n + i)) ! (ts ! i))) / real n)"
    using unsupervised_loss_value [OF st mt sr] tl snth by simp
  have "train_losses threshold lambda_u forward (inputs_x, targets_x) (inputs_u_w, inputs_u_s)
          = Inr ((\<Sum>i<bs. - (log_softmax (logits ! i) ! (targets_x ! i))) / real bs
                 + lambda_u * ((\<Sum>i<n. ms ! i * - (log_softmax (logits ! (bs + n + i)) ! (ts ! i))) / real n),
                 (\<Sum>i<bs. - (log_softmax (logits ! i) ! (targets_x ! i))) / real bs,
                 (\<Sum>i<n. ms ! i * - (log_softmax (logits ! (bs + n + i)) ! (ts ! i))) / real n,
                 ms)"
    unfolding train_losses_def Let_def fst_conv snd_conv
      logits_def [symmetric] bs_def [symmetric]
    by (simp only: ch and_then_Inr prod.case Lx pl Lu)
  with pl show ?thesis
    unfolding Let_def logits_def [symmetric] bs_def [symmetric] n_def [symmetric]
      weak_def [symmetric]
    by blast
qed

theorem train_losses_value_witness:
  "length ((\<lambda>xs. map (\<lambda>x. [0, 0]) xs) ([0::nat] @ [1] @ [2])) = length [0::nat] + length [1::nat] + length [2::nat]
   \<and> length [0::nat] = length [0::nat] \<and> length [2::nat] = length [1::nat]
   \<and> 0 < length [0::nat] \<and> 0 < length [1::nat] \<and> (0::nat) < 2
   \<and> list_all (\<lambda>row. length row = 2) ((\<lambda>xs. map (\<lambda>x. [0, 0 :: real]) xs) ([0::nat] @ [1] @ [2]))
   \<and> list_all (\<lambda>t. t < 2) [0::nat]
   \<and> train_losses (1 / 2) 1 (\<lambda>xs. map (\<lambda>x. [0, 0]) xs) ([0::nat], [0]) ([1], [2])
       = Inr (ln 2 + 1 * ln 2, ln 2, ln 2, [1])"
  using train_losses_value [of "\<lambda>xs. map (\<lambda>x. [0, 0]) xs" "[0::nat]" "[1]" "[2]" "[0]" 2 "1 / 2" 1]
  by (simp add: Let_def train_losses_def chunk2_def cross_entropy_mean_def cross_entropy_none_def
      cross_entropy_row_def log_softmax_def pseudo_labels_def softmax_def unsupervised_loss_def
      mean_def and_then_def)

subsection \<open>Iterations per epoch\<close>

lemma iteration_floor:
  assumes "0 \<le> k_img" "0 < batch_size"
  shows "iteration k_img batch_size = Inr \<lfloor>real_of_int k_img / real_of_int batch_size\<rfloor>"
    and "\<lfloor>real_of_int k_img / real_of_int batch_size\<rfloor> = k_img div batch_size"
proof -
  have "0 \<le> real_of_int k_img / real_of_int batch_size" using assms by simp
  then show "iteration k_img batch_size = Inr \<lfloor>real_of_int k_img / real_of_int batch_size\<rfloor>"
    using assms(2) by (simp add: iteration_def py_int_def)
  show "\<lfloor>real_of_int k_img / real_of_int batch_size\<rfloor> = k_img div batch_size"
    by (rule floor_divide_of_int_eq)
qed

lemma length_batches: "0 < b \<Longrightarrow> length (batches b xs) = length xs div b"
proof (induction b xs rule: batches.induct)
  case (1 b xs)
  show ?case
  proof (cases "length xs < b")
    case True
    then show ?thesis by (subst batches.simps) simp
  next
    case False
    then have ih: "length (batches b (drop b xs)) = length (drop b xs) div b"
      using "1.IH" "1.prems" by simp
    have "length xs div b = Suc ((length xs - b) div b)"
      using False "1.prems" by (simp add: le_div_geq)
    then show ?thesis
      using False "1.prems" ih by (subst batches.simps) simp
  qed
qed

lemma slice_len_total:
  assumes "rank < num_replicas"
  shows "slice_len rank (num_samples * num_replicas) num_replicas = num_samples"
proof (cases "num_samples = 0")
  case True
  then show ?thesis by (simp add: slice_len_def)
next
  case False
  then obtain s where s: "num_samples = Suc s" by (cases num_samples) auto
  have gt: "rank < num_samples * num_replicas"
    using assms s by (simp add: trans_less_add1)
  have e: "num_samples * num_replicas - rank + num_replicas - 1
          = (num_replicas - 1 - rank) + num_samples * num_replicas"
    using assms gt by simp
  have nz: "num_replicas \<noteq> 0" using assms by simp
  have z: "(num_replicas - 1 - rank) div num_replicas = 0"
    using assms by simp
  have "(num_samples * num_replicas - rank + num_replicas - 1) div num_replicas
          = num_samples + (num_replicas - 1 - rank) div num_replicas"
    unfolding e by (rule div_mult_self1 [OF nz])
  then have "(num_samples * num_replicas - rank + num_replicas - 1) div num_replicas = num_samples"
    by (simp only: z add_0_right)
  moreover have "\<not> num_samples * num_replicas \<le> rank" using gt by simp
  ultimately show ?thesis by (simp only: slice_len_def if_False)
qed

lemma length_distributed_indices:
  "rank < num_replicas \<Longrightarrow>
   length (distributed_indices num_replicas rank indices)
     = (length indices + num_replicas - 1) div num_replicas"
  by (simp add: distributed_indices_def Let_def slice_len_total)

lemma length_train_loader: "length (train_loader L U) = min (length L) (length U)"
  by (simp add: train_loader_def)

lemma train_loader_truncates:
  "train_loader L U
     = train_loader (take (min (length L) (length U)) L) (take (min (length L) (length U)) U)"
proof -
  have "zip L U = zip (take (min (length L) (length U)) L) (take (min (length L) (length U)) U)"
    by (metis length_zip take_all_iff order_refl take_zip)
  then show ?thesis by (simp add: train_loader_def)
qed

lemma iterations_executed_value:
  assumes "0 < batch_size"
  shows "iterations_executed local_rank world_size rank randperm batch_size labeled unlabeled
         = Inr (min (length (train_sampler local_rank world_size rank randperm labeled) div nat batch_size)
                    (length (train_sampler local_rank world_size rank randperm unlabeled) div nat batch_size))"
  using assms
  by (simp add: iterations_executed_def DataLoader_def and_then_Inr length_train_loader length_batches)

lemma length_train_sampler_sequential:
  "length (train_sampler (- 1) world_size rank randperm dataset) = length dataset"
  by (simp add: train_sampler_def)

lemma length_train_sampler_distributed:
  assumes "local_rank \<noteq> - 1" "rank < world_size" "length (randperm (length dataset)) = length dataset"
  shows "length (train_sampler local_rank world_size rank randperm dataset)
         = (length dataset + world_size - 1) div world_size"
  using assms by (simp add: train_sampler_def length_distributed_indices)

text \<open>
  Claim C9 (as amended). For \<open>k_img \<ge> 0\<close> and a positive batch size,
  \<open>args.iteration\<close> is \<open>floor(k_img / batch_size)\<close>. The loop of \<open>train\<close> runs over
  the zip of the two loaders and ends with the shorter one, so the number of iterations it
  executes is the smaller of the two loaders' numbers of batches, each the number of
  examples that the process's sampler yields divided by the batch size, rounded down. In
  single-process mode, with a labeled dataset of \<open>k_img\<close> examples and an unlabeled
  dataset at least as large, that number is \<open>floor(k_img / batch_size)\<close>. Under
  distributed sampling every process gets \<open>ceil(len(dataset) / world_size)\<close> examples
  of each dataset and executes accordingly fewer iterations.
\<close>

theorem iterations_per_epoch:
  "(0 \<le> k_img \<and> 0 < batch_size \<longrightarrow>
      iteration k_img batch_size = Inr \<lfloor>real_of_int k_img / real_of_int batch_size\<rfloor>)
   \<and> length (train_loader L U) = min (length L) (length U)
   \<and> train_loader L U
       = train_loader (take (min (length L) (length U)) L) (take (min (length L) (length U)) U)
   \<and> (0 < batch_size \<longrightarrow>
        iterations_executed local_rank world_size rank randperm batch_size labeled unlabeled
          = Inr (min (length (train_sampler local_rank world_size rank randperm labeled)
                        div nat batch_size)
                     (length (train_sampler local_rank world_size rank randperm unlabeled)
                        div nat batch_size)))
   \<and> (local_rank = - 1 \<and> 0 < batch_size \<and> 0 \<le> k_img \<and> length labeled = nat k_img
        \<and> length labeled \<le> length unlabeled \<longrightarrow>
        (\<exists>n. iterations_executed local_rank world_size rank randperm batch_size labeled unlabeled
               = Inr n
             \<and> iteration k_img batch_size = Inr (int n)
             \<and> int n = \<lfloor>real_of_int k_img / real_of_int batch_size\<rfloor>))
   \<and> (local_rank \<noteq> - 1 \<and> rank < world_size \<and> 0 < batch_size
        \<and> length (randperm (length labeled)) = length labeled
        \<and> length (randperm (length unlabeled)) = length unlabeled \<longrightarrow>
        iterations_executed local_rank world_size rank randperm batch_size labeled unlabeled
          = Inr (min (((length labeled + world_size - 1) div world_size) div nat batch_size)
                     (((length unlabeled + world_size - 1) div world_size) div nat batch_size)))"
proof (intro conjI impI)
  assume "0 \<le> k_img \<and> 0 < batch_size"
  then show "iteration k_img batch_size = Inr \<lfloor>real_of_int k_img / real_of_int batch_size\<rfloor>"
    using iteration_floor(1) by simp
next
  show "length (train_loader L U) = min (length L) (length U)"
    by (rule length_train_loader)
next
  show "train_loader L U
       = train_loader (take (min (length L) (length U)) L) (take (min (length L) (length U)) U)"
    by (rule train_loader_truncates)
next
  assume "0 < batch_size"
  then show "iterations_executed local_rank world_size rank randperm batch_size labeled unlabeled
          = Inr (min (length (train_sampler local_rank world_size rank randperm labeled)
                        div nat batch_size)
                     (length (train_sampler local_rank world_size rank randperm unlabeled)
                        div nat batch_size))"
    by (rule iterations_executed_value)
next
  assume a: "local_rank = - 1 \<and> 0 < batch_size \<and> 0 \<le> k_img \<and> length labeled = nat k_img
        \<and> length labeled \<le> length unlabeled"
  then have b: "0 < batch_size" and k: "0 \<le> k_img" and lr: "local_rank = - 1"
    and ll: "length labeled = nat k_img" and lu: "length labeled \<le> length unlabeled"
    by simp_all
  let ?n = "nat k_img div nat batch_size"
  have "nat k_img div nat batch_size \<le> length unlabeled div nat batch_size"
    using lu ll by (simp add: div_le_mono)
  then have ex: "iterations_executed local_rank world_size rank randperm batch_size labeled unlabeled
          = Inr ?n"
    using iterations_executed_value [OF b, of local_rank world_size rank randperm labeled unlabeled]
    by (simp add: lr length_train_sampler_sequential ll)
  have n: "int ?n = k_img div batch_size"
    using b k by (simp add: zdiv_int)
  have it: "iteration k_img batch_size = Inr (int ?n)"
    using iteration_floor [OF k b] n by simp
  have fl: "int ?n = \<lfloor>real_of_int k_img / real_of_int batch_size\<rfloor>"
    using iteration_floor(2) [OF k b] n by simp
  show "\<exists>n. iterations_executed local_rank world_size rank randperm batch_size labeled unlabeled
               = Inr n
             \<and> iteration k_img batch_size = Inr (int n)
             \<and> int n = \<lfloor>real_of_int k_img / real_of_int batch_size\<rfloor>"
    using ex it fl by (intro exI [of _ ?n]) simp
next
  assume a: "local_rank \<noteq> - 1 \<and> rank < world_size \<and> 0 < batch_size
        \<and> length (randperm (length labeled)) = length labeled
        \<and> length (randperm (length unlabeled)) = length unlabeled"
  then have b: "0 < batch_size" by simp
  show "iterations_executed local_rank world_size rank randperm batch_size labeled unlabeled
          = Inr (min (((length labeled + world_size - 1) div world_size) div nat batch_size)
                     (((length unlabeled + world_size - 1) div world_size) div nat batch_size))"
    using a iterations_executed_value [OF b, of local_rank world_size rank randperm labeled unlabeled]
    by (simp add: length_train_sampler_distributed)
qed

lemma upt_4: "[0..<4] = [0, 1, 2, 3]"
  by code_simp

lemma upt_2: "[0..<2] = [0, 1]"
  by code_simp

lemma batches_two_of_two: "batches 2 [a, b] = [[a, b]]"
  by (simp add: batches.simps [of 2 "[a, b]"] batches.simps [of 2 "[]"])

lemma batches_two_of_four: "batches 2 [a, b, c, d] = [[a, b], [c, d]]"
  by (simp add: batches.simps [of 2 "[a, b, c, d]"] batches.simps [of 2 "[c, d]"]
      batches.simps [of 2 "[]"])

lemma sharded_four:
  "train_sampler 0 2 0 (\<lambda>n. [0..<n]) [a, b, c, d] = [0, 2]"
  by (simp add: train_sampler_def distributed_indices_def slice_len_def upt_4 upt_2)

lemma iteration_four_two: "iteration 4 2 = Inr 2"
  by (simp add: iteration_def py_int_def)

lemma iterations_executed_sharded:
  "iterations_executed 0 2 0 (\<lambda>n. [0..<n]) 2 [10, 11, 12, 13 :: nat] [20, 21, 22, 23 :: nat] = Inr 1"
  by (simp add: iterations_executed_def DataLoader_def sharded_four and_then_def
      batches_two_of_two train_loader_def)

lemma iterations_executed_single:
  "iterations_executed (- 1) 1 0 (\<lambda>n. [0..<n]) 2 [10, 11, 12, 13 :: nat] [20, 21, 22, 23 :: nat] = Inr 2"
  by (simp add: iterations_executed_def DataLoader_def train_sampler_def upt_4 and_then_def
      batches_two_of_four train_loader_def)

theorem iterations_per_epoch_witness:
  "(0::int) \<le> 4 \<and> (0::int) < 2 \<and> length [10, 11, 12, 13 :: nat] = nat 4
   \<and> length [10, 11, 12, 13 :: nat] \<le> length [20, 21, 22, 23 :: nat]
   \<and> (0::int) \<noteq> - 1 \<and> (0::nat) < 2
   \<and> length ((\<lambda>n. [0..<n]) (length [10, 11, 12, 13 :: nat])) = length [10, 11, 12, 13 :: nat]
   \<and> iteration 4 2 = Inr \<lfloor>real_of_int 4 / real_of_int 2\<rfloor>
   \<and> iterations_executed (- 1) 1 0 (\<lambda>n. [0..<n]) 2 [10, 11, 12, 13 :: nat] [20, 21, 22, 23 :: nat]
       = Inr 2
   \<and> iterations_executed 0 2 0 (\<lambda>n. [0..<n]) 2 [10, 11, 12, 13 :: nat] [20, 21, 22, 23 :: nat]
       = Inr (min (((4 + 2 - 1) div 2) div nat 2) (((4 + 2 - 1) div 2) div nat 2))"
proof -
  note single = iterations_per_epoch [of 4 2 "[] :: nat list list" "[] :: nat list list"
      "- 1" 1 0 "\<lambda>n. [0..<n]" "[10, 11, 12, 13 :: nat]" "[20, 21, 22, 23 :: nat]"]
  note sharded = iterations_per_epoch [of 4 2 "[] :: nat list list" "[] :: nat list list"
      0 2 0 "\<lambda>n. [0..<n]" "[10, 11, 12, 13 :: nat]" "[20, 21, 22, 23 :: nat]"]
  have it: "iteration 4 2 = Inr \<lfloor>real_of_int 4 / real_of_int 2\<rfloor>"
    using single [THEN conjunct1] by simp
  have "\<exists>n. iterations_executed (- 1) 1 0 (\<lambda>n. [0..<n]) 2 [10, 11, 12, 13 :: nat]
               [20, 21, 22, 23 :: nat] = Inr n
             \<and> iteration 4 2 = Inr (int n)
             \<and> int n = \<lfloor>real_of_int 4 / real_of_int 2\<rfloor>"
    using single [THEN conjunct2, THEN conjunct2, THEN conjunct2, THEN conjunct2, THEN conjunct1]
    by simp
  then have ex: "iterations_executed (- 1) 1 0 (\<lambda>n. [0..<n]) 2 [10, 11, 12, 13 :: nat]
               [20, 21, 22, 23 :: nat] = Inr 2"
    by (simp add: iterations_executed_single)
  have sh: "iterations_executed 0 2 0 (\<lambda>n. [0..<n]) 2 [10, 11, 12, 13 :: nat]
               [20, 21, 22, 23 :: nat]
            = Inr (min (((4 + 2 - 1) div 2) div nat 2) (((4 + 2 - 1) div 2) div nat 2))"
    using sharded [THEN conjunct2, THEN conjunct2, THEN conjunct2, THEN conjunct2, THEN conjunct2]
    by simp
  show ?thesis
    using it ex sh by simp
qed

text \<open>
  Two processes (\<open>world_size = 2\<close>, this one with rank 0), \<open>k_img = 4\<close>, batch size 2 and
  datasets of four labeled and four unlabeled examples: the configured
  \<open>args.iteration\<close> is \<open>floor(4 / 2) = 2\<close>, the process executes one iteration.
\<close>

theorem iterations_sharded_counterexample:
  "iteration 4 2 = Inr 2
   \<and> iterations_executed 0 2 0 (\<lambda>n. [0..<n]) 2 [10, 11, 12, 13 :: nat] [20, 21, 22, 23 :: nat]
       = Inr 1"
  by (simp add: iterations_executed_sharded iteration_four_two)

end
